theory Spec2Isabelle
  imports
    Complex_Main
    "HOL-Library.Char_ord"
    "HOL-Library.List_Lexorder"
    "HOL-Library.Product_Lexorder"
    "HOL-Library.Multiset"
begin

section \<open>Numbers of a derived column\<close>

text \<open>
  A derived metric column of the dashboard holds 64-bit floats. The model keeps the
  three kinds of value that the library distinguishes: an ordinary number, the two
  infinities (the strings \<open>inf\<close> and \<open>infinity\<close> are read as such) and \<open>NaN\<close>,
  which is the missing sentinel of pandas. An ordinary number \<open>Fin q\<close> carries the
  rational \<open>q\<close> and stands for the double nearest to \<open>q\<close>: the reading of a decimal
  text carries the value the text denotes, and the product of two floats carries the
  double that the multiplication rounds to.
\<close>

datatype pyfloat = Fin rat | PInf | NInf | NaN

fun fsgn :: "pyfloat \<Rightarrow> int" where
  "fsgn (Fin a) = (if a < 0 then -1 else if a = 0 then 0 else 1)"
| "fsgn PInf = 1"
| "fsgn NInf = -1"
| "fsgn NaN = 0"

subsection \<open>Rounding to a double\<close>

definition round_half_even :: "rat \<Rightarrow> int" where
  "round_half_even x =
     (let f = \<lfloor>x\<rfloor>; d = x - of_int f
      in if d < 1 / 2 then f else if 1 / 2 < d then f + 1 else if even f then f else f + 1)"

text \<open>The number of binary digits of a natural number.\<close>

function bit_length :: "nat \<Rightarrow> nat" where
  "bit_length n = (if n = 0 then 0 else Suc (bit_length (n div 2)))"
  by pat_completeness auto
termination
  by (relation "measure id") auto

declare bit_length.simps [simp del]

text \<open>The binary exponent of a positive rational: the largest \<open>e\<close> with \<open>2^e \<le> x\<close>.\<close>

definition ilog2 :: "rat \<Rightarrow> int" where
  "ilog2 x =
     (if 1 \<le> x then int (bit_length (nat \<lfloor>x\<rfloor>)) - 1
      else - int (bit_length (nat (\<lceil>1 / x\<rceil> - 1))))"

definition scale2 :: "rat \<Rightarrow> int \<Rightarrow> rat" where
  "scale2 x e = (if 0 \<le> e then x * 2 ^ nat e else x / 2 ^ nat (- e))"

text \<open>
  The IEEE 754 binary64 number nearest to a rational, ties to the even mantissa: 53
  bits of mantissa, the exponent of the last bit not below \<open>-1074\<close>, and an infinity
  from \<open>2^1024\<close> on.
\<close>

definition nearest_double :: "rat \<Rightarrow> pyfloat" where
  "nearest_double x =
     (if x = 0 then Fin 0
      else let e = max (ilog2 \<bar>x\<bar> - 52) (- 1074);
               v = scale2 (of_int (round_half_even (scale2 \<bar>x\<bar> (- e)))) e
           in if 2 ^ 1024 \<le> v then (if x < 0 then NInf else PInf)
              else Fin (if x < 0 then - v else v))"

definition as_double :: "pyfloat \<Rightarrow> pyfloat" where
  "as_double x = (case x of Fin q \<Rightarrow> nearest_double q | _ \<Rightarrow> x)"

text \<open>
  The product of two floats, as \<open>*\<close> on two columns computes it row by row: the exact
  product of the two doubles, rounded to a double.
\<close>

fun fmul_double :: "pyfloat \<Rightarrow> pyfloat \<Rightarrow> pyfloat" where
  "fmul_double NaN y = NaN"
| "fmul_double x NaN = NaN"
| "fmul_double (Fin a) (Fin b) = nearest_double (a * b)"
| "fmul_double x y =
     (if fsgn x * fsgn y = 0 then NaN else if 0 < fsgn x * fsgn y then PInf else NInf)"

definition fmul :: "pyfloat \<Rightarrow> pyfloat \<Rightarrow> pyfloat" where
  "fmul x y = fmul_double (as_double x) (as_double y)"

section \<open>Strings\<close>

text \<open>
  \<open>Series.str.replace(pat, repl, regex=False)\<close> applies Python's \<open>str.replace\<close> to
  each row: every non-overlapping occurrence of \<open>pat\<close>, from the left, is replaced.
\<close>

function str_replace :: "string \<Rightarrow> string \<Rightarrow> string \<Rightarrow> string" where
  "str_replace old new s =
     (if old = [] then new @ concat (map (\<lambda>c. c # new) s)
      else if s = [] then []
      else if take (length old) s = old
        then new @ str_replace old new (drop (length old) s)
      else hd s # str_replace old new (tl s))"
  by pat_completeness auto
termination
  by (relation "measure (\<lambda>(old, new, s). length s)") auto

declare str_replace.simps [simp del]

text \<open>\<open>Series.str[-1]\<close>: the last character of a row, missing for the empty string.\<close>

definition str_last :: "string \<Rightarrow> char option" where
  "str_last s = (if s = [] then None else Some (last s))"

definition isspace_ascii :: "char \<Rightarrow> bool" where
  "isspace_ascii c = (c \<in> set [CHR '' '', CHR 0x09, CHR 0x0A, CHR 0x0B, CHR 0x0C, CHR 0x0D])"

definition isdigit_ascii :: "char \<Rightarrow> bool" where
  "isdigit_ascii c = (CHR ''0'' \<le> c \<and> c \<le> CHR ''9'')"

definition digit_val :: "char \<Rightarrow> nat" where
  "digit_val c = of_char c - of_char CHR ''0''"

definition digits_value :: "string \<Rightarrow> nat" where
  "digits_value ds = foldl (\<lambda>n c. 10 * n + digit_val c) 0 ds"

definition to_lower :: "char \<Rightarrow> char" where
  "to_lower c =
     (case map_of (zip ''ABCDEFGHIJKLMNOPQRSTUVWXYZ'' ''abcdefghijklmnopqrstuvwxyz'') c of
        None \<Rightarrow> c
      | Some l \<Rightarrow> l)"

subsection \<open>The library's reading of a number\<close>

text \<open>
  \<open>pd.to_numeric(..., errors='coerce')\<close> is library code. Its reading of one string
  is modelled here as pandas documents and implements it: blanks around the text are
  skipped, then come an optional sign, decimal digits with an optional point (at least
  one digit in all) and an optional exponent; the words \<open>inf\<close> and \<open>infinity\<close>, with an
  optional sign and in any letter case, are the infinities; the empty string and
  everything else is \<open>NaN\<close>. With \<open>errors='coerce'\<close> nothing is raised.
\<close>

definition skip_sign :: "string \<Rightarrow> bool \<times> string" where
  "skip_sign p =
     (case p of
        [] \<Rightarrow> (False, [])
      | c # r \<Rightarrow>
          if c = CHR ''-'' then (True, r)
          else if c = CHR ''+'' then (False, r)
          else (False, p))"

text \<open>The fraction after the digits of the integer part: its digits and the rest.\<close>

definition read_fraction :: "string \<Rightarrow> string \<times> string" where
  "read_fraction p =
     (case p of
        [] \<Rightarrow> ([], [])
      | c # r \<Rightarrow>
          if c = CHR ''.'' then (takeWhile isdigit_ascii r, dropWhile isdigit_ascii r)
          else ([], p))"

text \<open>
  The exponent: \<open>e\<close> or \<open>E\<close>, an optional sign and at least one digit. Without a digit
  the letter is not consumed.
\<close>

definition read_exponent :: "string \<Rightarrow> int \<times> string" where
  "read_exponent p =
     (case p of
        [] \<Rightarrow> (0, [])
      | c # r \<Rightarrow>
          if c = CHR ''e'' \<or> c = CHR ''E'' then
            (let (negative, q) = skip_sign r;
                 ds = takeWhile isdigit_ascii q
             in if ds = [] then (0, p)
                else ((if negative then - int (digits_value ds) else int (digits_value ds)),
                      dropWhile isdigit_ascii q))
          else (0, p))"

definition scale10 :: "rat \<Rightarrow> int \<Rightarrow> rat" where
  "scale10 x e = (if 0 \<le> e then x * 10 ^ nat e else x / 10 ^ nat (- e))"

definition decimal_literal :: "string \<Rightarrow> rat option" where
  "decimal_literal str =
     (let (negative, p1) = skip_sign (dropWhile isspace_ascii str);
          idigits = takeWhile isdigit_ascii p1;
          (fdigits, p3) = read_fraction (dropWhile isdigit_ascii p1);
          (ex, p4) = read_exponent p3;
          number = of_nat (digits_value (idigits @ fdigits))
      in if idigits = [] \<and> fdigits = [] then None
         else if dropWhile isspace_ascii p4 \<noteq> [] then None
         else Some (scale10 (if negative then - number else number)
                      (ex - int (length fdigits))))"

definition inf_literal :: "string \<Rightarrow> pyfloat option" where
  "inf_literal str =
     (let w = map to_lower str in
      if w = ''inf'' \<or> w = ''+inf'' \<or> w = ''infinity'' \<or> w = ''+infinity'' then Some PInf
      else if w = ''-inf'' \<or> w = ''-infinity'' then Some NInf
      else None)"

definition to_numeric :: "string \<Rightarrow> pyfloat" where
  "to_numeric val =
     (if val = [] then NaN
      else case decimal_literal val of
        Some r \<Rightarrow> Fin r
      | None \<Rightarrow> (case inf_literal val of Some x \<Rightarrow> x | None \<Rightarrow> NaN))"

section \<open>Field parsers\<close>

text \<open>
  Each parser maps a column (a list of strings, after \<open>astype(str)\<close>) to a column of
  floats, row by row. The function on one row carries the suffix \<open>_row\<close>.
\<close>

definition transform_string_to_num_row :: "string \<Rightarrow> pyfloat" where
  "transform_string_to_num_row s = to_numeric (str_replace '','' [] s)"

definition transform_string_to_num :: "string list \<Rightarrow> pyfloat list" where
  "transform_string_to_num sr = map transform_string_to_num_row sr"

text \<open>The dictionary of scale suffixes of \<open>transform_dollars_str_to_num\<close>.\<close>

definition suffix_factor :: "char \<Rightarrow> rat option" where
  "suffix_factor =
     map_of [(CHR ''T'', 10 ^ 12), (CHR ''B'', 10 ^ 9), (CHR ''M'', 10 ^ 6), (CHR ''K'', 10 ^ 3)]"

definition transform_dollars_str_to_num_row :: "string \<Rightarrow> pyfloat" where
  "transform_dollars_str_to_num_row s =
     (let num = str_replace ''$'' [] s;
          factor = (case str_last num of None \<Rightarrow> None | Some c \<Rightarrow> suffix_factor c);
          pure_num =
            (if (case str_last num of None \<Rightarrow> False | Some c \<Rightarrow> c \<in> set ''TBMK'')
             then butlast num else num)
      in fmul (to_numeric (str_replace '','' [] pure_num))
           (Fin (case factor of None \<Rightarrow> 1 | Some f \<Rightarrow> f)))"

definition transform_dollars_str_to_num :: "string list \<Rightarrow> pyfloat list" where
  "transform_dollars_str_to_num sr = map transform_dollars_str_to_num_row sr"

definition transform_percent_str_to_num_row :: "string \<Rightarrow> pyfloat" where
  "transform_percent_str_to_num_row s =
     to_numeric (str_replace ''+'' [] (str_replace ''%'' [] s))"

definition transform_percent_str_to_num :: "string list \<Rightarrow> pyfloat list" where
  "transform_percent_str_to_num sr = map transform_percent_str_to_num_row sr"

subsection \<open>The textual patterns of the specification\<close>

text \<open>
  The specification speaks of digit strings \<open><digits>[.<digits>]\<close> and of their
  numeric value. \<open>digit_part ds fs\<close> is the text with integer digits \<open>ds\<close> and
  fraction digits \<open>fs\<close> (no point when \<open>fs\<close> is empty), \<open>decimal_value ds fs\<close> the
  number it denotes.
\<close>

definition digit_part :: "string \<Rightarrow> string \<Rightarrow> string" where
  "digit_part ds fs = (if fs = [] then ds else ds @ CHR ''.'' # fs)"

definition decimal_value :: "string \<Rightarrow> string \<Rightarrow> rat" where
  "decimal_value ds fs =
     of_nat (digits_value ds) + of_nat (digits_value fs) / 10 ^ length fs"

text \<open>A tail that begins with no digit, no point and no exponent letter.\<close>

definition stops :: "string \<Rightarrow> bool" where
  "stops r =
     (case r of
        [] \<Rightarrow> True
      | c # _ \<Rightarrow> \<not> isdigit_ascii c \<and> c \<noteq> CHR ''.'' \<and> c \<noteq> CHR ''e'' \<and> c \<noteq> CHR ''E'')"

text \<open>
  Following the specification's words: a plain number is an optional minus sign, digits
  and an optional fraction; a percent string is a plain number with a trailing \<open>%\<close>
  and an optional leading \<open>+\<close>.
\<close>

definition plain_number :: "string \<Rightarrow> bool" where
  "plain_number b =
     (let b1 = (case b of [] \<Rightarrow> [] | c # r \<Rightarrow> if c = CHR ''-'' then r else b);
          rest = dropWhile isdigit_ascii b1
      in takeWhile isdigit_ascii b1 \<noteq> [] \<and>
         (rest = [] \<or>
          (hd rest = CHR ''.'' \<and> tl rest \<noteq> [] \<and> list_all isdigit_ascii (tl rest))))"

definition percent_pattern :: "string \<Rightarrow> bool" where
  "percent_pattern s =
     (s \<noteq> [] \<and> last s = CHR ''%'' \<and>
      plain_number (case butlast s of [] \<Rightarrow> [] | c # r \<Rightarrow> if c = CHR ''+'' then r else c # r))"

text \<open>
  The texts that read as a number, as a grammar: blanks, an optional sign, digits with
  an optional fraction (at least one digit in all), an optional exponent, blanks; or
  one of the words for infinity in any letter case.
\<close>

definition sign_text :: "string \<Rightarrow> bool" where
  "sign_text sg = (sg = [] \<or> sg = ''+'' \<or> sg = ''-'')"

definition fraction_text :: "string \<Rightarrow> bool" where
  "fraction_text fp = (case fp of [] \<Rightarrow> True | c # fd \<Rightarrow> c = CHR ''.'' \<and> list_all isdigit_ascii fd)"

definition exponent_text :: "string \<Rightarrow> bool" where
  "exponent_text ex =
     (case ex of
        [] \<Rightarrow> True
      | c # rest \<Rightarrow>
          (c = CHR ''e'' \<or> c = CHR ''E'') \<and>
          (\<exists>sg ed. rest = sg @ ed \<and> sign_text sg \<and> ed \<noteq> [] \<and> list_all isdigit_ascii ed))"

definition number_text :: "string \<Rightarrow> bool" where
  "number_text t =
     (\<exists>l sg ip fp ex r.
        t = l @ sg @ ip @ fp @ ex @ r \<and>
        list_all isspace_ascii l \<and> sign_text sg \<and> list_all isdigit_ascii ip \<and>
        fraction_text fp \<and> 0 < length ip + (length fp - 1) \<and> exponent_text ex \<and>
        list_all isspace_ascii r)"

definition inf_word :: "string \<Rightarrow> bool" where
  "inf_word t =
     (map to_lower t \<in>
        set [''inf'', ''+inf'', ''-inf'', ''infinity'', ''+infinity'', ''-infinity''])"

definition readable_text :: "string \<Rightarrow> bool" where
  "readable_text t = (number_text t \<or> inf_word t)"

text \<open>
  What the Scaled Currency Parser hands to the library: the string without \<open>$\<close>,
  without one final \<open>K\<close>, \<open>M\<close>, \<open>B\<close> or \<open>T\<close>, and without commas.
\<close>

definition dollars_body :: "string \<Rightarrow> string" where
  "dollars_body s =
     (let num = filter (\<lambda>c. c \<noteq> CHR ''$'') s
      in filter (\<lambda>c. c \<noteq> CHR '','')
           (if num \<noteq> [] \<and> last num \<in> set ''TBMK'' then butlast num else num))"

text \<open>The characters of a number text, and the number of points of a text.\<close>

definition number_char :: "char \<Rightarrow> bool" where
  "number_char c = (isspace_ascii c \<or> isdigit_ascii c \<or> c \<in> set ''+-.eE'')"

definition dots :: "string \<Rightarrow> nat" where
  "dots t = length (filter (\<lambda>c. c = CHR ''.'') t)"

section \<open>Formatting\<close>

text \<open>
  \<open>format(x, f"_.{dec}f")\<close> for a finite \<open>x\<close> and a natural number \<open>dec\<close>: the value
  rounded to \<open>dec\<close> decimals (ties to even), the integer digits grouped in threes by
  \<open>_\<close>, a point and the decimals when \<open>dec\<close> is positive.
\<close>

definition digit_char :: "nat \<Rightarrow> char" where
  "digit_char n = ''0123456789'' ! (n mod 10)"

function nat_digits :: "nat \<Rightarrow> string" where
  "nat_digits n =
     (if n < 10 then [digit_char n] else nat_digits (n div 10) @ [digit_char (n mod 10)])"
  by pat_completeness auto
termination
  by (relation "measure id") auto

declare nat_digits.simps [simp del]

function group_thousands :: "string \<Rightarrow> string" where
  "group_thousands ds =
     (if length ds \<le> 3 then ds
      else group_thousands (take (length ds - 3) ds) @ CHR ''_'' # drop (length ds - 3) ds)"
  by pat_completeness auto
termination
  by (relation "measure length") auto

declare group_thousands.simps [simp del]

definition format_fixed :: "rat \<Rightarrow> nat \<Rightarrow> string" where
  "format_fixed x dec =
     (let scaled = nat (round_half_even (\<bar>x\<bar> * 10 ^ dec));
          ip = nat_digits (scaled div 10 ^ dec);
          fp = nat_digits (scaled mod 10 ^ dec)
      in (if x < 0 then ''-'' else []) @ group_thousands ip @
         (if dec = 0 then [] else CHR ''.'' # replicate (dec - length fp) CHR ''0'' @ fp))"

text \<open>
  \<open>fmt_num(x, dec)\<close>: \<open>-\<close> for \<open>None\<close> and \<open>NaN\<close>, otherwise the formatted number and
  a \<open>$\<close>. The decimals are a natural number here, for which \<open>format\<close> never raises.
\<close>

definition fmt_num :: "pyfloat option \<Rightarrow> nat \<Rightarrow> string" where
  "fmt_num x dec =
     (case x of
        None \<Rightarrow> ''-''
      | Some NaN \<Rightarrow> ''-''
      | Some PInf \<Rightarrow> ''inf$''
      | Some NInf \<Rightarrow> ''-inf$''
      | Some (Fin r) \<Rightarrow> format_fixed r dec @ ''$'')"

section \<open>Tables\<close>

text \<open>
  A cell of a data frame is a string, a float, a timestamp (microseconds since the
  epoch) or one of the missing values. A row gives the cell of every column; a data
  frame lists its column names and its rows in order.
\<close>

datatype cell = Str string | Flt pyfloat | Stamp int | NaT | PyNone

fun isna :: "cell \<Rightarrow> bool" where
  "isna (Flt NaN) = True"
| "isna NaT = True"
| "isna PyNone = True"
| "isna c = False"

type_synonym row = "string \<Rightarrow> cell"

record dataframe =
  columns :: "string list"
  rows :: "row list"

datatype error = ValueError | KeyError | TypeError

text \<open>
  \<open>pd.to_datetime(sr.astype(str))\<close> is called without \<open>errors='coerce'\<close>: the library
  converts the column as a whole and raises when it cannot. The library's conversion
  is the parameter \<open>to_datetime\<close> (\<open>None\<close> where it raises).
\<close>

definition transform_string_to_datetime ::
    "(string list \<Rightarrow> cell list option) \<Rightarrow> string list \<Rightarrow> error + cell list" where
  "transform_string_to_datetime to_datetime sr =
     (case to_datetime sr of None \<Rightarrow> Inl ValueError | Some col \<Rightarrow> Inr col)"

subsection \<open>Row filter\<close>

text \<open>\<open>df.dropna(subset=[col])\<close>; the library raises \<open>KeyError\<close> for an unknown column.\<close>

definition dropna :: "string \<Rightarrow> dataframe \<Rightarrow> error + dataframe" where
  "dropna col df =
     (if col \<in> set (columns df)
      then Inr (df\<lparr>rows := filter (\<lambda>r. \<not> isna (r col)) (rows df)\<rparr>)
      else Inl KeyError)"

fun drop_na_line :: "dataframe \<Rightarrow> string list \<Rightarrow> error + dataframe" where
  "drop_na_line df [] = Inr df"
| "drop_na_line df (col # cols) =
     (case dropna col df of Inl e \<Rightarrow> Inl e | Inr df' \<Rightarrow> drop_na_line df' cols)"

subsection \<open>Top N by metric\<close>

text \<open>
  The order of the cells of one column. A column the library can sort holds cells of
  one kind: floats by value (the infinities at the ends), strings by code points,
  timestamps by time. A column of mixed kinds makes the comparison raise.
\<close>

fun cell_kind :: "cell \<Rightarrow> nat" where
  "cell_kind (Flt x) = 0"
| "cell_kind (Str s) = 1"
| "cell_kind (Stamp t) = 2"
| "cell_kind c = 3"

fun float_key :: "pyfloat \<Rightarrow> int \<times> rat" where
  "float_key (Fin a) = (0, a)"
| "float_key PInf = (1, 0)"
| "float_key NInf = (-1, 0)"
| "float_key NaN = (2, 0)"

fun cell_key :: "cell \<Rightarrow> (int \<times> rat) \<times> string \<times> int" where
  "cell_key (Flt x) = (float_key x, [], 0)"
| "cell_key (Str s) = ((0, 0), s, 0)"
| "cell_key (Stamp t) = ((0, 0), [], t)"
| "cell_key c = ((0, 0), [], 0)"

definition sortable :: "cell list \<Rightarrow> bool" where
  "sortable cs = (case cs of [] \<Rightarrow> True | c # r \<Rightarrow> list_all (\<lambda>d. cell_kind d = cell_kind c) r)"

text \<open>
  \<open>sort_values(by=by, ascending=False)\<close> is the library's routine and not part of the
  sources; the source passes no \<open>kind\<close>, and for the default kind the library promises
  no order among rows of equal value. The routine is therefore a parameter of the
  model. What it guarantees on rows without a missing value in the column is that the
  result is a rearrangement of the rows in descending order of the column.
\<close>

definition descending_sort_on ::
    "(string \<Rightarrow> row list \<Rightarrow> row list) \<Rightarrow> string \<Rightarrow> row list \<Rightarrow> bool" where
  "descending_sort_on srt by rs =
     (mset (srt by rs) = mset rs \<and>
      sorted_wrt (\<lambda>a b. cell_key (b by) \<le> cell_key (a by)) (srt by rs))"

text \<open>
  Following the specification's words: the descending sort with a stable tie-break,
  rows of equal value staying in their original order.
\<close>

definition stable_sort_desc :: "string \<Rightarrow> row list \<Rightarrow> row list" where
  "stable_sort_desc by rs = rev (sort_key (\<lambda>r. cell_key (r by)) (rev rs))"

text \<open>
  Another descending sort: the rows sorted ascending by insertion and then reversed,
  so that rows of equal value come in the reverse of their original order. This is
  what the library does with its default kind on a table of a few rows.
\<close>

definition sort_ascending_reversed :: "string \<Rightarrow> row list \<Rightarrow> row list" where
  "sort_ascending_reversed by rs = rev (sort_key (\<lambda>r. cell_key (r by)) rs)"

text \<open>\<open>drop_duplicates(subset=[col])\<close>: of the rows with equal cells the first stays.\<close>

fun drop_duplicates_seen :: "string \<Rightarrow> cell list \<Rightarrow> row list \<Rightarrow> row list" where
  "drop_duplicates_seen col seen [] = []"
| "drop_duplicates_seen col seen (r # rs) =
     (if r col \<in> set seen then drop_duplicates_seen col seen rs
      else r # drop_duplicates_seen col (r col # seen) rs)"

definition drop_duplicates :: "string \<Rightarrow> row list \<Rightarrow> row list" where
  "drop_duplicates col rs = drop_duplicates_seen col [] rs"

text \<open>\<open>head(n)\<close>: the first \<open>n\<close> rows; for a negative \<open>n\<close> all but the last \<open>-n\<close>.\<close>

definition head :: "int \<Rightarrow> 'a list \<Rightarrow> 'a list" where
  "head n xs = (if 0 \<le> n then take (nat n) xs else take (length xs - nat (- n)) xs)"

text \<open>The rows behind the names of the result, before the names are taken.\<close>

definition ranked_rows ::
    "(string \<Rightarrow> row list \<Rightarrow> row list) \<Rightarrow> dataframe \<Rightarrow> int \<Rightarrow> string \<Rightarrow> row list" where
  "ranked_rows sort_values df n by =
     head n (drop_duplicates ''name''
       (sort_values by (filter (\<lambda>r. \<not> isna (r by)) (rows df))))"

definition get_top_crypto_list ::
    "(string \<Rightarrow> row list \<Rightarrow> row list) \<Rightarrow> dataframe \<Rightarrow> int \<Rightarrow> string \<Rightarrow> bool \<Rightarrow>
       error + cell list" where
  "get_top_crypto_list sort_values df n by top1 =
     (if by \<notin> set (columns df) then Inl ValueError
      else if \<not> sortable (map (\<lambda>r. r by) (filter (\<lambda>r. \<not> isna (r by)) (rows df)))
        then Inl TypeError
      else if ''name'' \<notin> set (columns df) then Inl KeyError
      else let top_names = map (\<lambda>r. r ''name'') (ranked_rows sort_values df n by)
           in Inr (if top1 then drop 1 top_names else top_names))"

subsection \<open>Per-entity summary\<close>

text \<open>
  Sum, quotient by a count and half of a sum, on floats. The statistics of the
  summary are computed on the carried rationals, without rounding.
\<close>

fun fadd :: "pyfloat \<Rightarrow> pyfloat \<Rightarrow> pyfloat" where
  "fadd NaN y = NaN"
| "fadd x NaN = NaN"
| "fadd (Fin a) (Fin b) = Fin (a + b)"
| "fadd PInf NInf = NaN"
| "fadd NInf PInf = NaN"
| "fadd (Fin a) y = y"
| "fadd x y = x"

fun fdiv_nat :: "pyfloat \<Rightarrow> nat \<Rightarrow> pyfloat" where
  "fdiv_nat (Fin a) n = (if n = 0 then NaN else Fin (a / of_nat n))"
| "fdiv_nat x n = x"

text \<open>
  The reductions of a float column, which skip \<open>NaN\<close> and give \<open>NaN\<close> when nothing is
  left.
\<close>

definition present :: "pyfloat list \<Rightarrow> pyfloat list" where
  "present xs = filter (\<lambda>x. x \<noteq> NaN) xs"

definition series_mean :: "pyfloat list \<Rightarrow> pyfloat" where
  "series_mean xs =
     (if present xs = [] then NaN
      else fdiv_nat (foldl fadd (Fin 0) (present xs)) (length (present xs)))"

definition series_median :: "pyfloat list \<Rightarrow> pyfloat" where
  "series_median xs =
     (let v = sort_key float_key (present xs); k = length v
      in if k = 0 then NaN
         else if odd k then v ! (k div 2)
         else fdiv_nat (fadd (v ! (k div 2 - 1)) (v ! (k div 2))) 2)"

definition series_min :: "pyfloat list \<Rightarrow> pyfloat" where
  "series_min xs =
     (case sort_key float_key (present xs) of [] \<Rightarrow> NaN | x # _ \<Rightarrow> x)"

definition series_max :: "pyfloat list \<Rightarrow> pyfloat" where
  "series_max xs =
     (case rev (sort_key float_key (present xs)) of [] \<Rightarrow> NaN | x # _ \<Rightarrow> x)"

text \<open>The floats of a column of the selected rows; a cell of another kind raises.\<close>

definition float_column :: "string \<Rightarrow> row list \<Rightarrow> error + pyfloat list" where
  "float_column col rs =
     (case those (map (\<lambda>r. case r col of Flt x \<Rightarrow> Some x | _ \<Rightarrow> None) rs) of
        None \<Rightarrow> Inl TypeError
      | Some xs \<Rightarrow> Inr xs)"

record main_info =
  info_name :: cell
  info_symbol :: cell
  price_mean :: pyfloat
  price_median :: pyfloat
  price_min :: pyfloat
  price_max :: pyfloat
  chg24_mean :: pyfloat
  chg24_min :: pyfloat
  chg24_max :: pyfloat
  chg7_mean :: pyfloat
  chg7_min :: pyfloat
  chg7_max :: pyfloat

text \<open>
  What \<open>get_crypto_main_info\<close> shows: the line \<open>No data for ...\<close>, or the name, the
  symbol and the ten statistics, which are written with the two decimals arguments.
\<close>

datatype 'd outcome = NoData string | Info main_info 'd 'd

text \<open>
  Lines 241 to 257 of the function: the fields and statistics of the selected rows, in
  the order of the source. A column that the frame lacks raises \<open>KeyError\<close>.
\<close>

definition compute_info :: "dataframe \<Rightarrow> row list \<Rightarrow> error + main_info" where
  "compute_info df crypto_df =
     (if ''symbol'' \<notin> set (columns df) then Inl KeyError
      else if ''price_usd_num'' \<notin> set (columns df) then Inl KeyError
      else case float_column ''price_usd_num'' crypto_df of
        Inl e \<Rightarrow> Inl e
      | Inr price \<Rightarrow>
         (if ''chg_24h_num'' \<notin> set (columns df) then Inl KeyError
          else case float_column ''chg_24h_num'' crypto_df of
            Inl e \<Rightarrow> Inl e
          | Inr chg24 \<Rightarrow>
             (if ''chg_7d_num'' \<notin> set (columns df) then Inl KeyError
              else case float_column ''chg_7d_num'' crypto_df of
                Inl e \<Rightarrow> Inl e
              | Inr chg7 \<Rightarrow>
                 Inr \<lparr>info_name = hd crypto_df ''name'', info_symbol = hd crypto_df ''symbol'',
                      price_mean = series_mean price, price_median = series_median price,
                      price_min = series_min price, price_max = series_max price,
                      chg24_mean = series_mean chg24, chg24_min = series_min chg24,
                      chg24_max = series_max chg24,
                      chg7_mean = series_mean chg7, chg7_min = series_min chg7,
                      chg7_max = series_max chg7\<rparr>)))"

definition get_crypto_main_info ::
    "dataframe \<Rightarrow> string \<Rightarrow> 'd \<Rightarrow> 'd \<Rightarrow> error + 'd outcome" where
  "get_crypto_main_info df crypto price_decimals change_decimals =
     (if ''name'' \<notin> set (columns df) then Inl KeyError
      else let crypto_df = filter (\<lambda>r. r ''name'' = Str crypto) (rows df)
           in if crypto_df = [] then Inr (NoData crypto)
              else case compute_info df crypto_df of
                Inl e \<Rightarrow> Inl e
              | Inr i \<Rightarrow> Inr (Info i price_decimals change_decimals))"

text \<open>
  The button \<open>Get Info\<close> of the dashboard (lines 85 to 87 of the main script): the two
  dates of the chosen range are passed in the places of the two decimals arguments.
  A date is a day number.
\<close>

definition get_info_button ::
    "dataframe \<Rightarrow> string \<Rightarrow> int \<Rightarrow> int \<Rightarrow> error + int outcome" where
  "get_info_button df_crypto option_cripto_name start_date end_date =
     get_crypto_main_info df_crypto option_cripto_name start_date end_date"

text \<open>
  The range selection of the sibling \<open>plot_crypto_field\<close> (lines 286 to 289): from the
  first microsecond of \<open>start_date\<close> to the last one of \<open>end_date\<close>, both included.
\<close>

definition in_date_range :: "int \<Rightarrow> int \<Rightarrow> cell \<Rightarrow> bool" where
  "in_date_range start_date end_date c =
     (case c of
        Stamp t \<Rightarrow> start_date * 86400000000 \<le> t \<and> t \<le> end_date * 86400000000 + 86399999999
      | _ \<Rightarrow> False)"

definition select_date_range :: "dataframe \<Rightarrow> int \<Rightarrow> int \<Rightarrow> row list" where
  "select_date_range df_main start_date end_date =
     filter (\<lambda>r. in_date_range start_date end_date (r ''timestamp'')) (rows df_main)"

text \<open>
  Following the specification's words: the per-entity summary over the records of the
  entity whose timestamp lies in the inclusive range, with the explicit no-data outcome
  when there is none.
\<close>

definition summary_of_spec ::
    "dataframe \<Rightarrow> string \<Rightarrow> int \<Rightarrow> int \<Rightarrow> error + unit outcome" where
  "summary_of_spec df crypto start_date end_date =
     (let matching = filter (\<lambda>r. r ''name'' = Str crypto) (select_date_range df start_date end_date)
      in if matching = [] then Inr (NoData crypto)
         else case compute_info df matching of
           Inl e \<Rightarrow> Inl e
         | Inr i \<Rightarrow> Inr (Info i () ()))"

text \<open>A row of the dashboard's table, for concrete data.\<close>

definition crypto_row :: "string \<Rightarrow> string \<Rightarrow> int \<Rightarrow> pyfloat \<Rightarrow> pyfloat \<Rightarrow> pyfloat \<Rightarrow> pyfloat \<Rightarrow> row" where
  "crypto_row name symbol t price cap chg24 chg7 =
     (\<lambda>c. if c = ''name'' then Str name
          else if c = ''symbol'' then Str symbol
          else if c = ''timestamp'' then Stamp t
          else if c = ''price_usd_num'' then Flt price
          else if c = ''market_cap_num'' then Flt cap
          else if c = ''chg_24h_num'' then Flt chg24
          else if c = ''chg_7d_num'' then Flt chg7
          else PyNone)"

definition crypto_columns :: "string list" where
  "crypto_columns =
     [''name'', ''symbol'', ''timestamp'', ''price_usd_num'', ''market_cap_num'',
      ''chg_24h_num'', ''chg_7d_num'']"

definition example_table :: dataframe where
  "example_table =
     \<lparr>columns = crypto_columns,
      rows =
       [crypto_row ''Bitcoin'' ''BTC'' 0 (Fin 100) (Fin 900) (Fin 1) (Fin 2),
        crypto_row ''Ethereum'' ''ETH'' 0 (Fin 10) (Fin 500) (Fin 3) (Fin (- 4)),
        crypto_row ''Bitcoin'' ''BTC'' 432000000000 (Fin 300) (Fin 950) (Fin 5) (Fin 6),
        crypto_row ''Tether'' ''USDT'' 0 (Fin 1) NaN (Fin 0) (Fin 0),
        crypto_row ''Solana'' ''SOL'' 0 (Fin 20) (Fin 500) (Fin 7) (Fin 8)]\<rparr>"

text \<open>A table with equal metric values: two entities at 1 and two at 2.\<close>

definition tie_table :: dataframe where
  "tie_table =
     \<lparr>columns = crypto_columns,
      rows =
       [crypto_row ''c0'' ''C0'' 0 (Fin 1) (Fin 1) (Fin 0) (Fin 0),
        crypto_row ''c1'' ''C1'' 0 (Fin 1) (Fin 1) (Fin 0) (Fin 0),
        crypto_row ''c2'' ''C2'' 0 (Fin 1) (Fin 2) (Fin 0) (Fin 0),
        crypto_row ''c3'' ''C3'' 0 (Fin 1) (Fin 2) (Fin 0) (Fin 0)]\<rparr>"

section \<open>Facts about strings and numbers\<close>

lemma floor_rat_numeral: "\<lfloor>(numeral a :: rat) / numeral b\<rfloor> = numeral a div numeral b"
  using floor_divide_of_int_eq [of "numeral a" "numeral b", where ?'a = rat] by simp

lemma bit_length_small:
  "bit_length 0 = 0" "bit_length (Suc 0) = 1" "bit_length 1 = 1"
  "bit_length (numeral k) = Suc (bit_length (numeral k div 2))"
  by (simp_all add: bit_length.simps [of 0] bit_length.simps [of "Suc 0"]
      bit_length.simps [of "numeral k"])

lemmas double_eval =
  nearest_double_def ilog2_def scale2_def round_half_even_def Let_def bit_length_small
  floor_rat_numeral

lemma fmul_NaN [simp]: "fmul NaN y = NaN"
  by (simp add: fmul_def as_double_def)

lemma nearest_double_not_NaN: "nearest_double x \<noteq> NaN"
  by (simp add: nearest_double_def Let_def)

lemma str_replace_char:
  "str_replace [c] [] s = filter (\<lambda>x. x \<noteq> c) s"
proof (induction s)
  case Nil
  show ?case by (simp add: str_replace.simps [of "[c]" "[]" "[]"])
next
  case (Cons a s)
  show ?case
    using Cons.IH by (simp add: str_replace.simps [of "[c]" "[]" "a # s"])
qed

lemma digits_value_snoc:
  "digits_value (ds @ [c]) = 10 * digits_value ds + digit_val c"
  by (simp add: digits_value_def)

lemma digits_value_append:
  "digits_value (ds @ es) = digits_value ds * 10 ^ length es + digits_value es"
proof (induction es rule: rev_induct)
  case Nil
  show ?case by (simp add: digits_value_def)
next
  case (snoc e es)
  have "digits_value (ds @ es @ [e]) = 10 * digits_value (ds @ es) + digit_val e"
    using digits_value_snoc [of "ds @ es" e] by simp
  also have "\<dots> = digits_value ds * 10 ^ length (es @ [e]) + digits_value (es @ [e])"
    by (simp add: snoc.IH digits_value_snoc algebra_simps)
  finally show ?case .
qed

lemma not_digit_chars:
  "\<not> isdigit_ascii CHR ''.''" "\<not> isdigit_ascii CHR ''-''" "\<not> isdigit_ascii CHR ''+''"
  "\<not> isdigit_ascii CHR ''%''" "\<not> isdigit_ascii CHR ''$''" "\<not> isdigit_ascii CHR '',''"
  "\<not> isdigit_ascii CHR ''e''" "\<not> isdigit_ascii CHR ''E''"
  by (simp_all add: isdigit_ascii_def)

lemma digit_not_space: "isdigit_ascii c \<Longrightarrow> \<not> isspace_ascii c"
  by (auto simp: isdigit_ascii_def isspace_ascii_def)

lemma digit_to_lower:
  assumes "isdigit_ascii c"
  shows "to_lower c = c"
proof -
  define U where "U = ''ABCDEFGHIJKLMNOPQRSTUVWXYZ''"
  define L where "L = ''abcdefghijklmnopqrstuvwxyz''"
  have above: "\<forall>x\<in>set U. CHR ''9'' < x"
    by (simp add: U_def)
  have "c \<le> CHR ''9''"
    using assms by (simp add: isdigit_ascii_def)
  with above have "c \<notin> set U"
    by (meson leD)
  moreover have "length U = length L"
    by (simp add: U_def L_def)
  ultimately have "map_of (zip U L) c = None"
    by (simp add: map_of_zip_is_None)
  then show ?thesis
    by (simp add: to_lower_def U_def L_def)
qed

lemma takeWhile_digits:
  "list_all isdigit_ascii ds \<Longrightarrow> takeWhile isdigit_ascii ds = ds"
  by (simp add: list_all_iff)

lemma dropWhile_digits:
  "list_all isdigit_ascii ds \<Longrightarrow> dropWhile isdigit_ascii ds = []"
  by (simp add: list_all_iff)

lemma takeWhile_digits_stop:
  "list_all isdigit_ascii ds \<Longrightarrow> \<not> isdigit_ascii c \<Longrightarrow>
     takeWhile isdigit_ascii (ds @ c # r) = ds"
  by (simp add: list_all_iff takeWhile_tail)

lemma dropWhile_digits_stop:
  "list_all isdigit_ascii ds \<Longrightarrow> \<not> isdigit_ascii c \<Longrightarrow>
     dropWhile isdigit_ascii (ds @ c # r) = c # r"
  by (simp add: list_all_iff dropWhile_append3)

lemma decimal_value_scale:
  "scale10 (of_nat (digits_value (ds @ fs))) (- int (length fs)) = decimal_value ds fs"
  by (simp add: scale10_def decimal_value_def digits_value_append add_divide_distrib)

lemma decimal_value_scale_neg:
  "scale10 (- of_nat (digits_value (ds @ fs))) (- int (length fs)) = - decimal_value ds fs"
proof -
  have "scale10 (- x) e = - scale10 x e" for x e
    by (simp add: scale10_def)
  then show ?thesis
    by (simp add: decimal_value_scale)
qed

lemma read_number_body:
  assumes "ds \<noteq> []" "list_all isdigit_ascii ds" "list_all isdigit_ascii fs" "stops r"
  shows "takeWhile isdigit_ascii (digit_part ds fs @ r) = ds"
    and "read_fraction (dropWhile isdigit_ascii (digit_part ds fs @ r)) = (fs, r)"
    and "read_exponent r = (0, r)"
proof -
  show "takeWhile isdigit_ascii (digit_part ds fs @ r) = ds"
    using assms
    by (cases r) (auto simp: digit_part_def stops_def takeWhile_digits takeWhile_digits_stop not_digit_chars
         list_all_iff takeWhile_tail)
  show "read_fraction (dropWhile isdigit_ascii (digit_part ds fs @ r)) = (fs, r)"
    using assms
    by (cases r) (auto simp: digit_part_def stops_def read_fraction_def dropWhile_digits dropWhile_digits_stop not_digit_chars
         takeWhile_digits takeWhile_digits_stop list_all_iff dropWhile_append3 takeWhile_tail)
  show "read_exponent r = (0, r)"
    using assms by (cases r) (auto simp: stops_def read_exponent_def)
qed

lemma decimal_literal_unsigned:
  assumes "ds \<noteq> []" "list_all isdigit_ascii ds" "list_all isdigit_ascii fs"
  shows "decimal_literal (digit_part ds fs) = Some (decimal_value ds fs)"
proof -
  obtain d ds' where ds: "ds = d # ds'" using assms(1) by (cases ds) auto
  have d: "isdigit_ascii d" using assms(2) ds by simp
  have hd: "digit_part ds fs = d # tl (digit_part ds fs)"
    by (simp add: digit_part_def ds)
  have sp: "dropWhile isspace_ascii (digit_part ds fs) = digit_part ds fs"
    using digit_not_space [OF d] by (subst hd, simp) (simp add: hd [symmetric])
  have "skip_sign (d # tl (digit_part ds fs)) = (False, d # tl (digit_part ds fs))"
    using d by (auto simp: skip_sign_def not_digit_chars)
  then have sg: "skip_sign (digit_part ds fs) = (False, digit_part ds fs)"
    using hd by simp
  have st: "stops []" by (simp add: stops_def)
  note b = read_number_body [OF assms st, simplified]
  show ?thesis
    using assms(1) by (simp add: decimal_literal_def sp sg b decimal_value_scale)
qed

lemma decimal_literal_negative:
  assumes "ds \<noteq> []" "list_all isdigit_ascii ds" "list_all isdigit_ascii fs"
  shows "decimal_literal (CHR ''-'' # digit_part ds fs) = Some (- decimal_value ds fs)"
proof -
  have sp: "\<not> isspace_ascii CHR ''-''"
    by (simp add: isspace_ascii_def)
  have sg: "skip_sign (CHR ''-'' # digit_part ds fs) = (True, digit_part ds fs)"
    by (simp add: skip_sign_def)
  have st: "stops []" by (simp add: stops_def)
  note b = read_number_body [OF assms st, simplified]
  show ?thesis
    using assms(1) by (simp add: decimal_literal_def sp sg b decimal_value_scale_neg)
qed

lemma inf_literal_digit:
  assumes "isdigit_ascii d"
  shows "inf_literal (d # r) = None"
proof -
  have "d \<noteq> CHR ''i''" "d \<noteq> CHR ''+''" "d \<noteq> CHR ''-''"
    using assms by (auto simp: isdigit_ascii_def)
  then show ?thesis
    by (simp add: inf_literal_def Let_def digit_to_lower [OF assms])
qed

lemma digit_part_Cons:
  "ds \<noteq> [] \<Longrightarrow> list_all isdigit_ascii ds \<Longrightarrow>
     \<exists>d r. digit_part ds fs = d # r \<and> isdigit_ascii d"
  by (cases ds) (auto simp: digit_part_def)

lemma digit_part_last:
  "ds \<noteq> [] \<Longrightarrow> list_all isdigit_ascii ds \<Longrightarrow> list_all isdigit_ascii fs \<Longrightarrow>
     digit_part ds fs \<noteq> [] \<and> isdigit_ascii (last (digit_part ds fs))"
  by (auto simp: digit_part_def list_all_iff)

lemma filter_digit_part:
  "list_all isdigit_ascii ds \<Longrightarrow> list_all isdigit_ascii fs \<Longrightarrow>
     \<not> isdigit_ascii c \<Longrightarrow> c \<noteq> CHR ''.'' \<Longrightarrow>
     filter (\<lambda>x. x \<noteq> c) (digit_part ds fs) = digit_part ds fs"
  by (auto simp: digit_part_def list_all_iff filter_id_conv)

lemma to_numeric_unsigned:
  assumes "ds \<noteq> []" "list_all isdigit_ascii ds" "list_all isdigit_ascii fs"
  shows "to_numeric (digit_part ds fs) = Fin (decimal_value ds fs)"
  using digit_part_last [OF assms] decimal_literal_unsigned [OF assms]
  by (simp add: to_numeric_def)

lemma to_numeric_negative:
  assumes "ds \<noteq> []" "list_all isdigit_ascii ds" "list_all isdigit_ascii fs"
  shows "to_numeric (CHR ''-'' # digit_part ds fs) = Fin (- decimal_value ds fs)"
  using decimal_literal_negative [OF assms] by (simp add: to_numeric_def)

text \<open>A letter after the digits that is no exponent marker makes the text unreadable.\<close>

lemma to_numeric_trailing_letter:
  assumes "ds \<noteq> []" "list_all isdigit_ascii ds" "list_all isdigit_ascii fs"
    and c: "\<not> isdigit_ascii c" "c \<noteq> CHR ''.''" "c \<noteq> CHR ''e''" "c \<noteq> CHR ''E''" "\<not> isspace_ascii c"
  shows "to_numeric (digit_part ds fs @ [c]) = NaN"
proof -
  obtain d r where dr: "digit_part ds fs = d # r" "isdigit_ascii d"
    using digit_part_Cons [OF assms(1,2)] by blast
  have sp: "dropWhile isspace_ascii (digit_part ds fs @ [c]) = digit_part ds fs @ [c]"
    using digit_not_space [OF dr(2)] by (simp add: dr(1))
  have "skip_sign (d # r @ [c]) = (False, d # r @ [c])"
    using dr(2) by (auto simp: skip_sign_def not_digit_chars)
  then have sg: "skip_sign (digit_part ds fs @ [c]) = (False, digit_part ds fs @ [c])"
    by (simp add: dr(1))
  have st: "stops [c]" using c by (simp add: stops_def)
  note b = read_number_body [OF assms(1-3) st]
  have "decimal_literal (digit_part ds fs @ [c]) = None"
    using assms(1) c(5) by (simp add: decimal_literal_def sp sg b)
  moreover have "inf_literal (digit_part ds fs @ [c]) = None"
    using inf_literal_digit [OF dr(2)] by (simp add: dr(1))
  ultimately show ?thesis
    by (simp add: to_numeric_def)
qed

lemma dollars_row_suffix:
  assumes "ds \<noteq> []" "list_all isdigit_ascii ds" "list_all isdigit_ascii fs"
    and f: "suffix_factor c = Some f"
  shows "transform_dollars_str_to_num_row (CHR ''$'' # digit_part ds fs @ [c]) =
           fmul (Fin (decimal_value ds fs)) (Fin f)"
proof -
  have c: "c \<in> set ''TBMK''"
    using f by (auto simp: suffix_factor_def split: if_splits)
  then have c': "c \<noteq> CHR ''$''" "c \<noteq> CHR '',''" by auto
  have num: "str_replace ''$'' [] (CHR ''$'' # digit_part ds fs @ [c]) = digit_part ds fs @ [c]"
    using c' by (simp add: str_replace_char filter_digit_part assms not_digit_chars)
  have com: "str_replace '','' [] (digit_part ds fs) = digit_part ds fs"
    by (simp add: str_replace_char filter_digit_part assms not_digit_chars)
  show ?thesis
    using c f by (simp add: transform_dollars_str_to_num_row_def num str_last_def com
        to_numeric_unsigned [OF assms(1-3)] del: set_simps)
qed

lemma dollars_row_plain:
  assumes "ds \<noteq> []" "list_all isdigit_ascii ds" "list_all isdigit_ascii fs"
  shows "transform_dollars_str_to_num_row (CHR ''$'' # digit_part ds fs) =
           fmul (Fin (decimal_value ds fs)) (Fin 1)"
proof -
  note l = digit_part_last [OF assms]
  have nl: "last (digit_part ds fs) \<notin> set ''TBMK''"
    using l by (auto simp: isdigit_ascii_def)
  have sf: "suffix_factor (last (digit_part ds fs)) = None"
    using l by (auto simp: suffix_factor_def isdigit_ascii_def)
  have num: "str_replace ''$'' [] (CHR ''$'' # digit_part ds fs) = digit_part ds fs"
    by (simp add: str_replace_char filter_digit_part assms not_digit_chars)
  have com: "str_replace '','' [] (digit_part ds fs) = digit_part ds fs"
    by (simp add: str_replace_char filter_digit_part assms not_digit_chars)
  show ?thesis
    using l nl sf by (simp add: transform_dollars_str_to_num_row_def num str_last_def com
        to_numeric_unsigned [OF assms] del: set_simps)
qed

lemma dollars_row_lower:
  assumes "ds \<noteq> []" "list_all isdigit_ascii ds" "list_all isdigit_ascii fs"
    and c: "c \<in> set ''tbmk''"
  shows "transform_dollars_str_to_num_row (CHR ''$'' # digit_part ds fs @ [c]) = NaN"
proof -
  have c': "c \<noteq> CHR ''$''" "c \<noteq> CHR '',''" "c \<notin> set ''TBMK''" "suffix_factor c = None"
    "\<not> isdigit_ascii c" "c \<noteq> CHR ''.''" "c \<noteq> CHR ''e''" "c \<noteq> CHR ''E''" "\<not> isspace_ascii c"
    using c by (auto simp: suffix_factor_def isdigit_ascii_def isspace_ascii_def)
  have num: "str_replace ''$'' [] (CHR ''$'' # digit_part ds fs @ [c]) = digit_part ds fs @ [c]"
    using c' by (simp add: str_replace_char filter_digit_part assms not_digit_chars)
  have com: "str_replace '','' [] (digit_part ds fs @ [c]) = digit_part ds fs @ [c]"
    using c' by (simp add: str_replace_char filter_digit_part assms not_digit_chars)
  show ?thesis
    using c'(3,4) by (simp add: transform_dollars_str_to_num_row_def num str_last_def com
        to_numeric_trailing_letter [OF assms(1-3) c'(5-9)] del: set_simps)
qed

lemmas parser_eval =
  transform_string_to_num_row_def transform_dollars_str_to_num_row_def
  transform_percent_str_to_num_row_def to_numeric_def decimal_literal_def inf_literal_def
  skip_sign_def read_fraction_def read_exponent_def isspace_ascii_def isdigit_ascii_def
  digit_val_def digits_value_def to_lower_def scale10_def str_replace_char str_last_def
  suffix_factor_def Let_def

section \<open>Facts about formatting and tables\<close>

lemma plain_number_example:
  "transform_string_to_num_row ''1,234.56'' = Fin (30864 / 25)"
  by (simp add: parser_eval)

lemma nat_digits_1234: "nat_digits 1234 = ''1234''" and nat_digits_56: "nat_digits 56 = ''56''"
  by code_simp+

lemma group_1234: "group_thousands ''1234'' = ''1_234''"
  by code_simp

lemma format_example: "format_fixed (30864 / 25) 2 = ''1_234.56''"
  by (simp add: format_fixed_def Let_def round_half_even_def nat_digits_1234 nat_digits_56
      group_1234)

lemma drop_na_line_filter:
  "drop_na_line df cols =
     (if set cols \<subseteq> set (columns df)
      then Inr (df\<lparr>rows := filter (\<lambda>r. list_all (\<lambda>c. \<not> isna (r c)) cols) (rows df)\<rparr>)
      else Inl KeyError)"
proof (induction cols arbitrary: df)
  case Nil
  show ?case by simp
next
  case (Cons col cols)
  show ?case
    by (auto simp: dropna_def Cons.IH conj_commute intro!: filter_cong)
qed

lemma drop_duplicates_seen_subset:
  "set (drop_duplicates_seen col seen rs) \<subseteq> set rs"
  by (induction rs arbitrary: seen) auto

lemma drop_duplicates_seen_fresh:
  "r \<in> set (drop_duplicates_seen col seen rs) \<Longrightarrow> r col \<notin> set seen"
proof (induction rs arbitrary: seen)
  case Nil
  then show ?case by simp
next
  case (Cons a rs)
  show ?case
  proof (cases "a col \<in> set seen")
    case True
    with Cons show ?thesis by simp
  next
    case False
    with Cons.prems consider "r = a" | "r \<in> set (drop_duplicates_seen col (a col # seen) rs)"
      by auto
    then show ?thesis
    proof cases
      case 1
      with False show ?thesis by simp
    next
      case 2
      from Cons.IH [OF 2] show ?thesis by simp
    qed
  qed
qed

lemma drop_duplicates_seen_distinct:
  "distinct (map (\<lambda>r. r col) (drop_duplicates_seen col seen rs))"
  by (induction rs arbitrary: seen) (auto dest: drop_duplicates_seen_fresh)

lemma drop_duplicates_seen_sorted:
  "sorted_wrt P rs \<Longrightarrow> sorted_wrt P (drop_duplicates_seen col seen rs)"
proof (induction rs arbitrary: seen)
  case Nil
  show ?case by simp
next
  case (Cons r rs)
  then show ?case
    using drop_duplicates_seen_subset [of col "r col # seen" rs] by auto
qed

lemma drop_duplicates_seen_first:
  assumes "sorted_wrt P rs" "r \<in> set (drop_duplicates_seen col seen rs)"
    "r' \<in> set rs" "r' col = r col"
  shows "r' = r \<or> P r r'"
  using assms
proof (induction rs arbitrary: seen)
  case Nil
  then show ?case by simp
next
  case (Cons a rs)
  show ?case
  proof (cases "a col \<in> set seen")
    case True
    with Cons.prems have in_rest: "r \<in> set (drop_duplicates_seen col seen rs)"
      by simp
    then have "r col \<notin> set seen"
      by (rule drop_duplicates_seen_fresh)
    with True Cons.prems(4) have "r' \<noteq> a"
      by auto
    with Cons.prems(3) have "r' \<in> set rs"
      by simp
    with Cons.IH [OF _ in_rest] Cons.prems show ?thesis
      by simp
  next
    case False
    with Cons.prems consider "r = a" | "r \<in> set (drop_duplicates_seen col (a col # seen) rs)"
      by auto
    then show ?thesis
    proof cases
      case 1
      with Cons.prems(1,3) show ?thesis
        by auto
    next
      case 2
      then have "r col \<notin> set (a col # seen)"
        by (rule drop_duplicates_seen_fresh)
      with Cons.prems(4) have "r' \<noteq> a"
        by auto
      with Cons.prems(3) have "r' \<in> set rs"
        by simp
      with Cons.IH [OF _ 2] Cons.prems show ?thesis
        by simp
    qed
  qed
qed

lemma descending_sort_set: "descending_sort_on srt by rs \<Longrightarrow> set (srt by rs) = set rs"
  unfolding descending_sort_on_def by (metis set_mset_mset)

lemma descending_sort_sorted:
  "descending_sort_on srt by rs \<Longrightarrow>
     sorted_wrt (\<lambda>a b. cell_key (b by) \<le> cell_key (a by)) (srt by rs)"
  unfolding descending_sort_on_def by blast

lemma sort_key_descending:
  "sorted_wrt (\<lambda>a b. cell_key (b by) \<le> cell_key (a by))
     (rev (sort_key (\<lambda>r. cell_key (r by)) rs))"
proof -
  have "sorted (map (\<lambda>r. cell_key (r by)) (sort_key (\<lambda>r. cell_key (r by)) rs))"
    by (rule sorted_sort_key)
  then have "sorted_wrt (\<lambda>a b. cell_key (a by) \<le> cell_key (b by))
      (sort_key (\<lambda>r. cell_key (r by)) rs)"
    by (simp add: sorted_map)
  then show ?thesis
    by (simp add: sorted_wrt_rev)
qed

lemma stable_sort_desc_descending: "descending_sort_on stable_sort_desc by rs"
  unfolding descending_sort_on_def stable_sort_desc_def
  by (simp add: sort_key_descending)

lemma sort_ascending_reversed_descending: "descending_sort_on sort_ascending_reversed by rs"
  unfolding descending_sort_on_def sort_ascending_reversed_def
  by (simp add: sort_key_descending)

lemma stable_sort_desc_stable:
  "filter (\<lambda>r. cell_key (r by) = k) (stable_sort_desc by rs) =
     filter (\<lambda>r. cell_key (r by) = k) rs"
proof -
  have "filter (\<lambda>r. cell_key (r by) = k) (sort_key (\<lambda>r. cell_key (r by)) (rev rs)) =
      filter (\<lambda>r. cell_key (r by) = k) (rev rs)"
    by (rule sort_key_stable)
  then show ?thesis
    by (simp add: stable_sort_desc_def rev_filter [symmetric])
qed

lemma float_key_order:
  "float_key (Fin a) \<le> float_key (Fin b) \<longleftrightarrow> a \<le> b"
  "float_key NInf \<le> float_key (Fin a)" "float_key (Fin a) \<le> float_key PInf"
  by auto

lemma cell_key_float:
  "cell_key (Flt (Fin a)) \<le> cell_key (Flt (Fin b)) \<longleftrightarrow> a \<le> b"
  by auto

section \<open>The field parsers on well-formed input\<close>

lemmas literal_eval =
  digit_part_def decimal_value_def digits_value_def digit_val_def isdigit_ascii_def

text \<open>
  Claim C4, as amended. For a currency string \<open>$<digits>[.<digits>]<suffix>\<close> with
  suffix \<open>K\<close>, \<open>M\<close>, \<open>B\<close> or \<open>T\<close> the Scaled Currency Parser returns the float product
  of the value of the digit part and \<open>10^3\<close>, \<open>10^6\<close>, \<open>10^9\<close> or \<open>10^12\<close>: the double
  nearest to the product of the double of the digit part and the power of ten.
  Without a suffix the multiplier is 1; the match is case-sensitive, so a lower-case
  letter leaves the row missing.
\<close>

theorem scaled_currency_value:
  assumes "ds \<noteq> []" "list_all isdigit_ascii ds" "list_all isdigit_ascii fs"
  shows "transform_dollars_str_to_num_row (''$'' @ digit_part ds fs @ ''K'') =
           fmul (Fin (decimal_value ds fs)) (Fin (10 ^ 3))
       \<and> transform_dollars_str_to_num_row (''$'' @ digit_part ds fs @ ''M'') =
           fmul (Fin (decimal_value ds fs)) (Fin (10 ^ 6))
       \<and> transform_dollars_str_to_num_row (''$'' @ digit_part ds fs @ ''B'') =
           fmul (Fin (decimal_value ds fs)) (Fin (10 ^ 9))
       \<and> transform_dollars_str_to_num_row (''$'' @ digit_part ds fs @ ''T'') =
           fmul (Fin (decimal_value ds fs)) (Fin (10 ^ 12))
       \<and> transform_dollars_str_to_num_row (''$'' @ digit_part ds fs) =
           fmul (Fin (decimal_value ds fs)) (Fin 1)
       \<and> transform_dollars_str_to_num_row (''$'' @ digit_part ds fs @ ''k'') = NaN
       \<and> transform_dollars_str_to_num_row (''$'' @ digit_part ds fs @ ''m'') = NaN
       \<and> transform_dollars_str_to_num_row (''$'' @ digit_part ds fs @ ''b'') = NaN
       \<and> transform_dollars_str_to_num_row (''$'' @ digit_part ds fs @ ''t'') = NaN"
proof -
  have K: "suffix_factor CHR ''K'' = Some (10 ^ 3)"
    and M: "suffix_factor CHR ''M'' = Some (10 ^ 6)"
    and B: "suffix_factor CHR ''B'' = Some (10 ^ 9)"
    and T: "suffix_factor CHR ''T'' = Some (10 ^ 12)"
    by (simp_all add: suffix_factor_def)
  show ?thesis
    using dollars_row_suffix [OF assms K] dollars_row_suffix [OF assms M]
      dollars_row_suffix [OF assms B] dollars_row_suffix [OF assms T]
      dollars_row_plain [OF assms]
      dollars_row_lower [OF assms, of "CHR ''k''"] dollars_row_lower [OF assms, of "CHR ''m''"]
      dollars_row_lower [OF assms, of "CHR ''b''"] dollars_row_lower [OF assms, of "CHR ''t''"]
    by simp
qed

text \<open>The float products of the examples.\<close>

lemma product_171_53_B: "fmul (Fin (17153 / 100)) (Fin 1000000000) = Fin 171530000000"
proof -
  have "nearest_double (17153 / 100) = Fin (6035175344397353 / 35184372088832)"
    by (simp add: double_eval)
  moreover have "nearest_double 1000000000 = Fin 1000000000"
    by (simp add: double_eval)
  moreover have "nearest_double (6035175344397353 / 35184372088832 * 10 ^ 9) = Fin 171530000000"
    by (simp add: double_eval)
  ultimately show ?thesis
    by (simp add: fmul_def as_double_def)
qed

lemma product_1_64_K: "fmul (Fin (41 / 25)) (Fin 1000) = Fin 1640"
proof -
  have "nearest_double (41 / 25) = Fin (7385903388887613 / 4503599627370496)"
    by (simp add: double_eval)
  moreover have "nearest_double 1000 = Fin 1000"
    by (simp add: double_eval)
  moreover have "nearest_double (7385903388887613 / 4503599627370496 * 10 ^ 3) = Fin 1640"
    by (simp add: double_eval)
  ultimately show ?thesis
    by (simp add: fmul_def as_double_def)
qed

lemma product_1_64_T: "fmul (Fin (41 / 25)) (Fin 1000000000000) = Fin 1640000000000"
proof -
  have "nearest_double (41 / 25) = Fin (7385903388887613 / 4503599627370496)"
    by (simp add: double_eval)
  moreover have "nearest_double 1000000000000 = Fin 1000000000000"
    by (simp add: double_eval)
  moreover have "nearest_double (7385903388887613 / 4503599627370496 * 10 ^ 12) =
      Fin 1640000000000"
    by (simp add: double_eval)
  ultimately show ?thesis
    by (simp add: fmul_def as_double_def)
qed

lemma product_2_01_K:
  "fmul (Fin (201 / 100)) (Fin 1000) = Fin (8840073487319039 / 4398046511104)"
proof -
  have "nearest_double (201 / 100) = Fin (1131529406376837 / 562949953421312)"
    by (simp add: double_eval)
  moreover have "nearest_double 1000 = Fin 1000"
    by (simp add: double_eval)
  moreover have "nearest_double (1131529406376837 / 562949953421312 * 10 ^ 3) =
      Fin (8840073487319039 / 4398046511104)"
    by (simp add: double_eval)
  ultimately show ?thesis
    by (simp add: fmul_def as_double_def)
qed

theorem scaled_currency_value_witness:
  "transform_dollars_str_to_num_row ''$171.53B'' = Fin 171530000000
   \<and> transform_dollars_str_to_num_row ''$1.64K'' = Fin 1640
   \<and> transform_dollars_str_to_num_row ''$1.64T'' = Fin 1640000000000
   \<and> transform_dollars_str_to_num_row ''$2.01K'' = Fin (8840073487319039 / 4398046511104)
   \<and> transform_dollars_str_to_num_row ''$1.64k'' = NaN"
proof -
  have v: "decimal_value ''171'' ''53'' = 17153 / 100" "decimal_value ''1'' ''64'' = 164 / 100"
    "decimal_value ''2'' ''01'' = 201 / 100"
    by (simp_all add: literal_eval)
  show ?thesis
    using scaled_currency_value [of "''171''" "''53''"] scaled_currency_value [of "''1''" "''64''"]
      scaled_currency_value [of "''2''" "''01''"]
    by (simp add: v product_171_53_B product_1_64_K product_1_64_T product_2_01_K
        digit_part_def isdigit_ascii_def)
qed

text \<open>
  Claim C4 as stated fails: for \<open>$2.01K\<close> the digit part times \<open>10^3\<close> is 2010, and
  the parser returns the double just below it, 2009.9999999999998.
\<close>

theorem scaled_currency_exact_counterexample:
  "transform_dollars_str_to_num_row ''$2.01K'' \<noteq>
     nearest_double (decimal_value ''2'' ''01'' * 10 ^ 3)"
proof -
  have "transform_dollars_str_to_num_row ''$2.01K'' = Fin (8840073487319039 / 4398046511104)"
    by (simp add: parser_eval product_2_01_K)
  moreover have "nearest_double (decimal_value ''2'' ''01'' * 10 ^ 3) = Fin 2010"
    by (simp add: literal_eval double_eval)
  ultimately show ?thesis
    by simp
qed

text \<open>
  Claim C5. For a percent string, a number with a trailing \<open>%\<close> and an optional leading
  \<open>+\<close>, the Percent Parser strips both symbols and reads the remainder with its sign
  kept: \<open>17%\<close> gives 17, \<open>-1.66%\<close> gives -1.66 and \<open>+2.5%\<close> gives 2.5.
\<close>

theorem percent_parser_value:
  assumes "ds \<noteq> []" "list_all isdigit_ascii ds" "list_all isdigit_ascii fs"
  shows "transform_percent_str_to_num_row (digit_part ds fs @ ''%'') =
           Fin (decimal_value ds fs)
       \<and> transform_percent_str_to_num_row (''+'' @ digit_part ds fs @ ''%'') =
           Fin (decimal_value ds fs)
       \<and> transform_percent_str_to_num_row (''-'' @ digit_part ds fs @ ''%'') =
           Fin (- decimal_value ds fs)
       \<and> transform_percent_str_to_num_row (''+-'' @ digit_part ds fs @ ''%'') =
           Fin (- decimal_value ds fs)"
proof -
  have pc: "filter (\<lambda>x. x \<noteq> CHR ''%'') (digit_part ds fs) = digit_part ds fs"
    and pl: "filter (\<lambda>x. x \<noteq> CHR ''+'') (digit_part ds fs) = digit_part ds fs"
    by (simp_all add: filter_digit_part assms not_digit_chars)
  show ?thesis
    by (simp add: transform_percent_str_to_num_row_def str_replace_char pc pl
        to_numeric_unsigned [OF assms] to_numeric_negative [OF assms])
qed

theorem percent_parser_value_witness:
  "transform_percent_str_to_num_row ''17%'' = Fin 17
   \<and> transform_percent_str_to_num_row ''-1.66%'' = Fin (- (166 / 100))
   \<and> transform_percent_str_to_num_row ''+2.5%'' = Fin (25 / 10)"
  using percent_parser_value [of "''17''" "[]"] percent_parser_value [of "''1''" "''66''"]
    percent_parser_value [of "''2''" "''5''"]
  by (simp add: literal_eval)

text \<open>
  Claim C10. The Percent Parser deletes every \<open>%\<close> and every \<open>+\<close> of the input, wherever
  they stand: its result is the reading of the string without these characters. So
  \<open>1+2%\<close> and \<open>%5%\<close>, which are no percent strings, give the numbers 12 and 5 and not
  the missing sentinel.
\<close>

theorem percent_parser_deletes_everywhere:
  "transform_percent_str_to_num_row s =
      to_numeric (filter (\<lambda>c. c \<noteq> CHR ''%'' \<and> c \<noteq> CHR ''+'') s)
   \<and> \<not> percent_pattern ''1+2%''
   \<and> transform_percent_str_to_num_row ''1+2%'' = Fin 12
   \<and> \<not> percent_pattern ''%5%''
   \<and> transform_percent_str_to_num_row ''%5%'' = Fin 5"
proof -
  have "str_replace ''+'' [] (str_replace ''%'' [] s) =
          filter (\<lambda>c. c \<noteq> CHR ''%'' \<and> c \<noteq> CHR ''+'') s"
    by (simp add: str_replace_char conj_commute)
  then have "transform_percent_str_to_num_row s =
      to_numeric (filter (\<lambda>c. c \<noteq> CHR ''%'' \<and> c \<noteq> CHR ''+'') s)"
    by (simp add: transform_percent_str_to_num_row_def)
  moreover have "\<not> percent_pattern ''1+2%''" "\<not> percent_pattern ''%5%''"
    by (simp_all add: percent_pattern_def plain_number_def isdigit_ascii_def)
  moreover have "transform_percent_str_to_num_row ''1+2%'' = Fin 12"
    "transform_percent_str_to_num_row ''%5%'' = Fin 5"
    by (simp_all add: parser_eval)
  ultimately show ?thesis
    by blast
qed


text \<open>
  Claim C9, as amended. The Plain Number Parser reads \<open>1,234.56\<close>; \<open>fmt_num\<close> with two
  decimals writes the result as \<open>1_234.56$\<close>: the thousands separator of the formatter
  is the underscore and a dollar sign is appended.
\<close>

theorem roundtrip_fmt_num:
  "fmt_num (Some (transform_string_to_num_row ''1,234.56'')) 2 = ''1_234.56$''"
  by (simp add: plain_number_example fmt_num_def format_example)

text \<open>Claim C9 as stated fails: the formatted text is not the original string.\<close>

theorem roundtrip_fmt_num_counterexample:
  "fmt_num (Some (transform_string_to_num_row ''1,234.56'')) 2 \<noteq> ''1,234.56''"
  by (simp add: plain_number_example fmt_num_def format_example)

section \<open>Row filter and Top N\<close>

text \<open>
  Claim C8. The Row Filter is idempotent: filtering the filtered data frame again on the
  same required columns gives the same data frame; its rows are the rows that are
  non-missing in every required column, in their order.
\<close>

theorem drop_na_line_idempotent:
  assumes "drop_na_line df cols = Inr df'"
  shows "drop_na_line df' cols = Inr df'
       \<and> columns df' = columns df
       \<and> rows df' = filter (\<lambda>r. list_all (\<lambda>c. \<not> isna (r c)) cols) (rows df)"
  using assms by (auto simp: drop_na_line_filter split: if_splits)

text \<open>
  Claim C7. For a column name that is no column of the data frame, Top N by metric
  fails with \<open>ValueError\<close> and returns no list.
\<close>

theorem top_n_missing_column:
  "by \<notin> set (columns df) \<Longrightarrow> get_top_crypto_list srt df n by top1 = Inl ValueError"
  by (simp add: get_top_crypto_list_def)

text \<open>
  Claim C3, as amended. For a positive \<open>N\<close>, Top N by metric drops the rows with a
  missing metric, sorts the rest descending by the metric with the library's routine,
  whatever order that gives to rows of equal metric, keeps the first row of every
  entity name, takes the first \<open>N\<close> and drops the first name when the exclude-top flag
  is set. So the result has at most \<open>N\<close> names, no name twice, and is in descending
  order of the metric; every name stands with the highest metric among its rows.
\<close>

theorem top_n_by_metric:
  assumes srt: "descending_sort_on srt by (filter (\<lambda>r. \<not> isna (r by)) (rows df))"
    and by_col: "by \<in> set (columns df)"
    and name_col: "''name'' \<in> set (columns df)"
    and homog: "sortable (map (\<lambda>r. r by) (filter (\<lambda>r. \<not> isna (r by)) (rows df)))"
    and pos: "0 < n"
  shows "get_top_crypto_list srt df n by top1 =
           Inr (map (\<lambda>r. r ''name'')
                 (if top1 then drop 1 (ranked_rows srt df n by) else ranked_rows srt df n by))
       \<and> ranked_rows srt df n by =
           take (nat n) (drop_duplicates ''name''
             (srt by (filter (\<lambda>r. \<not> isna (r by)) (rows df))))
       \<and> length (if top1 then drop 1 (ranked_rows srt df n by) else ranked_rows srt df n by)
           \<le> nat n
       \<and> distinct (map (\<lambda>r. r ''name'')
                 (if top1 then drop 1 (ranked_rows srt df n by) else ranked_rows srt df n by))
       \<and> sorted_wrt (\<lambda>a b. cell_key (b by) \<le> cell_key (a by))
                 (if top1 then drop 1 (ranked_rows srt df n by) else ranked_rows srt df n by)
       \<and> (\<forall>r\<in>set (ranked_rows srt df n by).
             r \<in> set (rows df) \<and> \<not> isna (r by) \<and>
             (\<forall>r'\<in>set (rows df). \<not> isna (r' by) \<and> r' ''name'' = r ''name'' \<longrightarrow>
                 cell_key (r' by) \<le> cell_key (r by)))"
proof -
  define kept where "kept = filter (\<lambda>r. \<not> isna (r by)) (rows df)"
  define sv where "sv = srt by kept"
  define dd where "dd = drop_duplicates ''name'' sv"
  define rr where "rr = ranked_rows srt df n by"
  define res where "res = (if top1 then drop 1 rr else rr)"
  have rr: "rr = take (nat n) dd"
    using pos by (simp add: rr_def ranked_rows_def head_def dd_def sv_def kept_def)
  have srt': "descending_sort_on srt by kept"
    using srt by (simp add: kept_def)
  have sv_set: "set sv = set kept"
    unfolding sv_def by (rule descending_sort_set [OF srt'])
  have sv_sorted: "sorted_wrt (\<lambda>a b. cell_key (b by) \<le> cell_key (a by)) sv"
    unfolding sv_def by (rule descending_sort_sorted [OF srt'])
  have dd_sorted: "sorted_wrt (\<lambda>a b. cell_key (b by) \<le> cell_key (a by)) dd"
    unfolding dd_def drop_duplicates_def by (rule drop_duplicates_seen_sorted [OF sv_sorted])
  have dd_distinct: "distinct (map (\<lambda>r. r ''name'') dd)"
    unfolding dd_def drop_duplicates_def by (rule drop_duplicates_seen_distinct)
  have dd_sub: "set dd \<subseteq> set kept"
    unfolding dd_def drop_duplicates_def
    using drop_duplicates_seen_subset [of "''name''" "[]" sv] sv_set by simp
  have c1: "get_top_crypto_list srt df n by top1 = Inr (map (\<lambda>r. r ''name'') res)"
    using by_col name_col homog
    by (simp add: get_top_crypto_list_def res_def rr_def drop_map)
  have c4: "length res \<le> nat n"
    by (auto simp: res_def rr)
  have "distinct (map (\<lambda>r. r ''name'') rr)"
    using distinct_take [OF dd_distinct, of "nat n"] by (simp add: rr take_map)
  then have c5: "distinct (map (\<lambda>r. r ''name'') res)"
    using distinct_drop [of "map (\<lambda>r. r ''name'') rr" 1] by (simp add: res_def drop_map)
  have "sorted_wrt (\<lambda>a b. cell_key (b by) \<le> cell_key (a by)) rr"
    using sorted_wrt_take [OF dd_sorted, of "nat n"] by (simp add: rr)
  then have c6: "sorted_wrt (\<lambda>a b. cell_key (b by) \<le> cell_key (a by)) res"
    using sorted_wrt_drop [of "\<lambda>a b. cell_key (b by) \<le> cell_key (a by)" rr 1]
    by (simp add: res_def)
  have c7: "\<forall>r\<in>set rr. r \<in> set (rows df) \<and> \<not> isna (r by) \<and>
      (\<forall>r'\<in>set (rows df). \<not> isna (r' by) \<and> r' ''name'' = r ''name'' \<longrightarrow>
          cell_key (r' by) \<le> cell_key (r by))"
  proof (intro ballI conjI impI)
    fix r
    assume r: "r \<in> set rr"
    then have rdd: "r \<in> set dd"
      unfolding rr by (rule in_set_takeD)
    with dd_sub have rk: "r \<in> set kept"
      by blast
    then show "r \<in> set (rows df)" "\<not> isna (r by)"
      by (simp_all add: kept_def)
    fix r'
    assume r': "r' \<in> set (rows df)" and h: "\<not> isna (r' by) \<and> r' ''name'' = r ''name''"
    then have "r' \<in> set sv"
      by (simp add: sv_set kept_def)
    from drop_duplicates_seen_first [OF sv_sorted rdd [unfolded dd_def drop_duplicates_def] this]
    show "cell_key (r' by) \<le> cell_key (r by)"
      using h by auto
  qed
  show ?thesis
    using c1 rr c4 c5 c6 c7
    unfolding res_def rr_def dd_def sv_def kept_def by blast
qed

section \<open>The claims on concrete data\<close>

lemma crypto_row_cells:
  "crypto_row name symbol t price cap chg24 chg7 ''name'' = Str name"
  "crypto_row name symbol t price cap chg24 chg7 ''symbol'' = Str symbol"
  "crypto_row name symbol t price cap chg24 chg7 ''timestamp'' = Stamp t"
  "crypto_row name symbol t price cap chg24 chg7 ''price_usd_num'' = Flt price"
  "crypto_row name symbol t price cap chg24 chg7 ''market_cap_num'' = Flt cap"
  "crypto_row name symbol t price cap chg24 chg7 ''chg_24h_num'' = Flt chg24"
  "crypto_row name symbol t price cap chg24 chg7 ''chg_7d_num'' = Flt chg7"
  by (simp_all add: crypto_row_def)

lemma example_kept:
  "filter (\<lambda>r. \<not> isna (r ''market_cap_num'')) (rows example_table) =
     [crypto_row ''Bitcoin'' ''BTC'' 0 (Fin 100) (Fin 900) (Fin 1) (Fin 2),
      crypto_row ''Ethereum'' ''ETH'' 0 (Fin 10) (Fin 500) (Fin 3) (Fin (- 4)),
      crypto_row ''Bitcoin'' ''BTC'' 432000000000 (Fin 300) (Fin 950) (Fin 5) (Fin 6),
      crypto_row ''Solana'' ''SOL'' 0 (Fin 20) (Fin 500) (Fin 7) (Fin 8)]"
  by (simp add: example_table_def crypto_row_cells)

lemma example_sorted:
  "sort_ascending_reversed ''market_cap_num''
     (filter (\<lambda>r. \<not> isna (r ''market_cap_num'')) (rows example_table)) =
     [crypto_row ''Bitcoin'' ''BTC'' 432000000000 (Fin 300) (Fin 950) (Fin 5) (Fin 6),
      crypto_row ''Bitcoin'' ''BTC'' 0 (Fin 100) (Fin 900) (Fin 1) (Fin 2),
      crypto_row ''Solana'' ''SOL'' 0 (Fin 20) (Fin 500) (Fin 7) (Fin 8),
      crypto_row ''Ethereum'' ''ETH'' 0 (Fin 10) (Fin 500) (Fin 3) (Fin (- 4))]"
  by (simp add: example_kept sort_ascending_reversed_def crypto_row_cells)

lemma example_ranked:
  "map (\<lambda>r. r ''name'')
     (ranked_rows sort_ascending_reversed example_table 2 ''market_cap_num'') =
     [Str ''Bitcoin'', Str ''Solana'']"
  by (simp add: ranked_rows_def example_sorted drop_duplicates_def head_def crypto_row_cells)

theorem top_n_by_metric_witness:
  "descending_sort_on sort_ascending_reversed ''market_cap_num''
      (filter (\<lambda>r. \<not> isna (r ''market_cap_num'')) (rows example_table))
   \<and> get_top_crypto_list sort_ascending_reversed example_table 2 ''market_cap_num'' False =
     Inr [Str ''Bitcoin'', Str ''Solana'']
   \<and> get_top_crypto_list sort_ascending_reversed example_table 2 ''market_cap_num'' True =
     Inr [Str ''Solana'']"
proof -
  note h0 = sort_ascending_reversed_descending
  have h1: "''market_cap_num'' \<in> set (columns example_table)"
    and h2: "''name'' \<in> set (columns example_table)"
    by (simp_all add: example_table_def crypto_columns_def)
  have h3: "sortable (map (\<lambda>r. r ''market_cap_num'')
      (filter (\<lambda>r. \<not> isna (r ''market_cap_num'')) (rows example_table)))"
    by (simp add: example_kept sortable_def crypto_row_cells)
  have h4: "(0::int) < 2"
    by simp
  have a: "get_top_crypto_list sort_ascending_reversed example_table 2 ''market_cap_num'' False =
      Inr (map (\<lambda>r. r ''name'')
        (ranked_rows sort_ascending_reversed example_table 2 ''market_cap_num''))"
    using top_n_by_metric [OF h0 h1 h2 h3 h4, of False, THEN conjunct1] by simp
  have b: "get_top_crypto_list sort_ascending_reversed example_table 2 ''market_cap_num'' True =
      Inr (map (\<lambda>r. r ''name'')
        (drop 1 (ranked_rows sort_ascending_reversed example_table 2 ''market_cap_num'')))"
    using top_n_by_metric [OF h0 h1 h2 h3 h4, of True, THEN conjunct1] by simp
  show ?thesis
    using example_ranked h0 by (simp add: a b drop_map [symmetric] del: drop_map)
qed

text \<open>
  Claim C3 as stated fails. On the table with equal metric values the stable
  tie-break puts \<open>c2\<close> first; the descending sort that leaves equal rows in reverse
  order, which the library's default kind gives on such a table, puts \<open>c3\<close> first. The
  code asks for no stable kind, so its result is not fixed to the stable one.
\<close>

lemma tie_kept:
  "filter (\<lambda>r. \<not> isna (r ''market_cap_num'')) (rows tie_table) = rows tie_table"
  by (simp add: tie_table_def crypto_row_cells)

lemma tie_top_stable:
  "get_top_crypto_list stable_sort_desc tie_table 1 ''market_cap_num'' False =
     Inr [Str ''c2'']"
  by (simp add: get_top_crypto_list_def ranked_rows_def tie_kept)
    (simp add: tie_table_def crypto_columns_def sortable_def stable_sort_desc_def
      drop_duplicates_def head_def crypto_row_cells)

lemma tie_top_reversed:
  "get_top_crypto_list sort_ascending_reversed tie_table 1 ''market_cap_num'' False =
     Inr [Str ''c3'']"
  by (simp add: get_top_crypto_list_def ranked_rows_def tie_kept)
    (simp add: tie_table_def crypto_columns_def sortable_def sort_ascending_reversed_def
      drop_duplicates_def head_def crypto_row_cells)

theorem top_n_stable_counterexample:
  "\<not> (\<forall>srt.
        descending_sort_on srt ''market_cap_num''
          (filter (\<lambda>r. \<not> isna (r ''market_cap_num'')) (rows tie_table)) \<longrightarrow>
        get_top_crypto_list srt tie_table 1 ''market_cap_num'' False =
        get_top_crypto_list stable_sort_desc tie_table 1 ''market_cap_num'' False)"
proof
  assume "\<forall>srt.
        descending_sort_on srt ''market_cap_num''
          (filter (\<lambda>r. \<not> isna (r ''market_cap_num'')) (rows tie_table)) \<longrightarrow>
        get_top_crypto_list srt tie_table 1 ''market_cap_num'' False =
        get_top_crypto_list stable_sort_desc tie_table 1 ''market_cap_num'' False"
  with sort_ascending_reversed_descending
  have "get_top_crypto_list sort_ascending_reversed tie_table 1 ''market_cap_num'' False =
        get_top_crypto_list stable_sort_desc tie_table 1 ''market_cap_num'' False"
    by blast
  then show False
    by (simp add: tie_top_stable tie_top_reversed)
qed

theorem top_n_missing_column_witness:
  "get_top_crypto_list stable_sort_desc example_table 5 ''volume'' True = Inl ValueError"
  using top_n_missing_column [of "''volume''" example_table stable_sort_desc 5 True]
  by (simp add: example_table_def crypto_columns_def)

theorem drop_na_line_idempotent_witness:
  "drop_na_line example_table [''name'', ''market_cap_num''] =
     Inr (example_table\<lparr>rows := filter (\<lambda>r. r ''name'' \<noteq> Str ''Tether'') (rows example_table)\<rparr>)
   \<and> drop_na_line
        (example_table\<lparr>rows := filter (\<lambda>r. r ''name'' \<noteq> Str ''Tether'') (rows example_table)\<rparr>)
        [''name'', ''market_cap_num''] =
     Inr (example_table\<lparr>rows := filter (\<lambda>r. r ''name'' \<noteq> Str ''Tether'') (rows example_table)\<rparr>)"
proof -
  have h: "drop_na_line example_table [''name'', ''market_cap_num''] =
     Inr (example_table\<lparr>rows := filter (\<lambda>r. r ''name'' \<noteq> Str ''Tether'') (rows example_table)\<rparr>)"
    by (simp add: dropna_def example_table_def crypto_columns_def crypto_row_cells)
  from drop_na_line_idempotent [OF h] h show ?thesis
    by blast
qed

section \<open>Totality of the numeric parsers\<close>

lemma skip_sign_decomp: "\<exists>sg. sign_text sg \<and> p = sg @ snd (skip_sign p)"
proof (cases p)
  case Nil
  then show ?thesis by (simp add: skip_sign_def sign_text_def)
next
  case (Cons c r)
  show ?thesis
  proof (cases "c = CHR ''-'' \<or> c = CHR ''+''")
    case True
    then have "sign_text [c]" "p = [c] @ snd (skip_sign p)"
      using Cons by (auto simp: skip_sign_def sign_text_def)
    then show ?thesis by blast
  next
    case False
    then have "sign_text []" "p = [] @ snd (skip_sign p)"
      using Cons by (auto simp: skip_sign_def sign_text_def)
    then show ?thesis by blast
  qed
qed

lemma read_fraction_decomp:
  "\<exists>fp. fraction_text fp \<and> p = fp @ snd (read_fraction p) \<and>
        length fp - 1 = length (fst (read_fraction p))"
proof (cases p)
  case Nil
  then have "fraction_text []" "p = [] @ snd (read_fraction p)"
    "length ([]::string) - 1 = length (fst (read_fraction p))"
    by (simp_all add: read_fraction_def fraction_text_def)
  then show ?thesis by blast
next
  case (Cons c r)
  show ?thesis
  proof (cases "c = CHR ''.''")
    case True
    let ?fp = "c # takeWhile isdigit_ascii r"
    have "fraction_text ?fp"
      using True by (simp add: fraction_text_def list_all_iff) (meson set_takeWhileD)
    moreover have "p = ?fp @ snd (read_fraction p)"
      using True Cons by (simp add: read_fraction_def)
    moreover have "length ?fp - 1 = length (fst (read_fraction p))"
      using True Cons by (simp add: read_fraction_def)
    ultimately show ?thesis by blast
  next
    case False
    then have "fraction_text []" "p = [] @ snd (read_fraction p)"
      "length ([]::string) - 1 = length (fst (read_fraction p))"
      using Cons by (simp_all add: read_fraction_def fraction_text_def)
    then show ?thesis by blast
  qed
qed

lemma read_exponent_decomp: "\<exists>ex. exponent_text ex \<and> p = ex @ snd (read_exponent p)"
proof (cases p)
  case Nil
  then have "exponent_text []" "p = [] @ snd (read_exponent p)"
    by (simp_all add: read_exponent_def exponent_text_def)
  then show ?thesis by blast
next
  case (Cons c r)
  obtain sg where sg: "sign_text sg" "r = sg @ snd (skip_sign r)"
    using skip_sign_decomp by blast
  define q where "q = snd (skip_sign r)"
  define ed where "ed = takeWhile isdigit_ascii q"
  show ?thesis
  proof (cases "(c = CHR ''e'' \<or> c = CHR ''E'') \<and> ed \<noteq> []")
    case True
    let ?ex = "c # sg @ ed"
    have digits: "list_all isdigit_ascii ed"
      unfolding ed_def by (simp add: list_all_iff) (meson set_takeWhileD)
    have "exponent_text ?ex"
      using True sg(1) digits by (auto simp: exponent_text_def)
    moreover have "snd (read_exponent p) = dropWhile isdigit_ascii q"
      using True Cons
      by (auto simp: read_exponent_def q_def ed_def Let_def split: prod.splits)
    then have "p = ?ex @ snd (read_exponent p)"
      using Cons sg(2) by (simp add: q_def ed_def)
    ultimately show ?thesis by blast
  next
    case False
    then have "snd (read_exponent p) = p"
      using Cons
      by (auto simp: read_exponent_def q_def ed_def Let_def split: prod.splits)
    then have "exponent_text []" "p = [] @ snd (read_exponent p)"
      by (simp_all add: exponent_text_def)
    then show ?thesis by blast
  qed
qed

lemma all_space_takeWhile: "list_all isspace_ascii (takeWhile isspace_ascii t)"
  by (simp add: list_all_iff) (meson set_takeWhileD)

lemma dropWhile_space_empty: "dropWhile isspace_ascii p = [] \<Longrightarrow> list_all isspace_ascii p"
  by (simp add: list_all_iff dropWhile_eq_Nil_conv)

lemma decimal_literal_number_text:
  assumes "decimal_literal t = Some v"
  shows "number_text t"
proof -
  define l where "l = takeWhile isspace_ascii t"
  define p0 where "p0 = dropWhile isspace_ascii t"
  define p1 where "p1 = snd (skip_sign p0)"
  define ip where "ip = takeWhile isdigit_ascii p1"
  define p2 where "p2 = dropWhile isdigit_ascii p1"
  define fd where "fd = fst (read_fraction p2)"
  define p3 where "p3 = snd (read_fraction p2)"
  define p4 where "p4 = snd (read_exponent p3)"
  have t: "t = l @ p0"
    by (simp add: l_def p0_def)
  obtain sg where sg: "sign_text sg" "p0 = sg @ p1"
    using skip_sign_decomp [of p0] by (auto simp: p1_def)
  have p1: "p1 = ip @ p2"
    by (simp add: ip_def p2_def)
  obtain fp where fp: "fraction_text fp" "p2 = fp @ p3" "length fp - 1 = length fd"
    using read_fraction_decomp [of p2] by (auto simp: p3_def fd_def)
  obtain ex where ex: "exponent_text ex" "p3 = ex @ p4"
    using read_exponent_decomp [of p3] by (auto simp: p4_def)
  from assms have ok: "\<not> (ip = [] \<and> fd = [])" "dropWhile isspace_ascii p4 = []"
    by (auto simp: decimal_literal_def Let_def ip_def fd_def p4_def p3_def p2_def p1_def p0_def
        split: prod.splits if_splits)
  have "t = l @ sg @ ip @ fp @ ex @ p4"
    using t sg(2) p1 fp(2) ex(2) by simp
  moreover have "list_all isspace_ascii l"
    unfolding l_def by (rule all_space_takeWhile)
  moreover have "list_all isdigit_ascii ip"
    unfolding ip_def by (simp add: list_all_iff) (meson set_takeWhileD)
  moreover have "0 < length ip + (length fp - 1)"
    using ok(1) fp(3) by auto
  moreover have "list_all isspace_ascii p4"
    using ok(2) by (rule dropWhile_space_empty)
  ultimately show ?thesis
    unfolding number_text_def using sg(1) fp(1) ex(1) by blast
qed

lemma inf_literal_inf_word: "inf_literal t \<noteq> None \<Longrightarrow> inf_word t"
  by (auto simp: inf_literal_def inf_word_def Let_def split: if_splits)

lemma to_numeric_readable:
  assumes "\<not> readable_text t"
  shows "to_numeric t = NaN"
proof -
  have "decimal_literal t = None"
    using assms decimal_literal_number_text [of t] by (cases "decimal_literal t")
      (auto simp: readable_text_def)
  moreover have "inf_literal t = None"
    using assms inf_literal_inf_word [of t] by (cases "inf_literal t") (auto simp: readable_text_def)
  ultimately show ?thesis
    by (simp add: to_numeric_def)
qed

lemma plain_row_unreadable:
  "\<not> readable_text (filter (\<lambda>c. c \<noteq> CHR '','') s) \<Longrightarrow> transform_string_to_num_row s = NaN"
  by (simp add: transform_string_to_num_row_def str_replace_char to_numeric_readable)

lemma percent_row_unreadable:
  "\<not> readable_text (filter (\<lambda>c. c \<noteq> CHR ''%'' \<and> c \<noteq> CHR ''+'') s) \<Longrightarrow>
     transform_percent_str_to_num_row s = NaN"
proof -
  have "str_replace ''+'' [] (str_replace ''%'' [] s) =
          filter (\<lambda>c. c \<noteq> CHR ''%'' \<and> c \<noteq> CHR ''+'') s"
    by (simp add: str_replace_char conj_commute)
  then show "\<not> readable_text (filter (\<lambda>c. c \<noteq> CHR ''%'' \<and> c \<noteq> CHR ''+'') s) \<Longrightarrow>
     transform_percent_str_to_num_row s = NaN"
    by (simp add: transform_percent_str_to_num_row_def to_numeric_readable)
qed

lemma dollars_row_unreadable:
  assumes "\<not> readable_text (dollars_body s)"
  shows "transform_dollars_str_to_num_row s = NaN"
proof -
  define num where "num = str_replace ''$'' [] s"
  define pure_num where "pure_num =
    (if (case str_last num of None \<Rightarrow> False | Some c \<Rightarrow> c \<in> set ''TBMK'')
     then butlast num else num)"
  have "str_replace '','' [] pure_num = dollars_body s"
    by (cases "filter (\<lambda>c. c \<noteq> CHR ''$'') s = []")
      (simp_all add: pure_num_def num_def dollars_body_def str_replace_char str_last_def Let_def
        del: set_simps filter_filter)
  then have "to_numeric (str_replace '','' [] pure_num) = NaN"
    using assms by (simp add: to_numeric_readable)
  then show ?thesis
    unfolding transform_dollars_str_to_num_row_def Let_def num_def [symmetric]
      pure_num_def [symmetric] by simp
qed

lemma sign_text_chars: "sign_text sg \<Longrightarrow> list_all number_char sg"
  by (auto simp: sign_text_def number_char_def)

lemma fraction_text_chars: "fraction_text fp \<Longrightarrow> list_all number_char fp"
  by (cases fp) (auto simp: fraction_text_def number_char_def list_all_iff)

lemma exponent_text_chars: "exponent_text ex \<Longrightarrow> list_all number_char ex"
  by (cases ex) (auto simp: exponent_text_def sign_text_def number_char_def list_all_iff)

lemma number_text_chars:
  assumes "number_text t"
  shows "list_all number_char t"
proof -
  from assms obtain l sg ip fp ex r where
    t: "t = l @ sg @ ip @ fp @ ex @ r" and
    parts: "list_all isspace_ascii l" "sign_text sg" "list_all isdigit_ascii ip"
      "fraction_text fp" "exponent_text ex" "list_all isspace_ascii r"
    unfolding number_text_def by blast
  have "list_all number_char l" "list_all number_char ip" "list_all number_char r"
    using parts(1,3,6) by (auto simp: list_all_iff number_char_def)
  then show ?thesis
    using sign_text_chars [OF parts(2)] fraction_text_chars [OF parts(4)]
      exponent_text_chars [OF parts(5)]
    by (simp add: t)
qed

lemma dots_append [simp]: "dots (a @ b) = dots a + dots b"
  by (simp add: dots_def)

lemma dots_spaces: "list_all isspace_ascii p \<Longrightarrow> dots p = 0"
proof (induction p)
  case Nil
  show ?case by (simp add: dots_def)
next
  case (Cons c p)
  have "\<not> isspace_ascii CHR ''.''"
    by (simp add: isspace_ascii_def)
  with Cons show ?case
    by (auto simp: dots_def)
qed

lemma dots_digits: "list_all isdigit_ascii p \<Longrightarrow> dots p = 0"
proof (induction p)
  case Nil
  show ?case by (simp add: dots_def)
next
  case (Cons c p)
  with not_digit_chars(1) show ?case
    by (auto simp: dots_def)
qed

lemma dots_sign: "sign_text sg \<Longrightarrow> dots sg = 0"
  by (auto simp: sign_text_def dots_def)

lemma dots_fraction: "fraction_text fp \<Longrightarrow> dots fp \<le> 1"
proof (cases fp)
  case Nil
  then show ?thesis by (simp add: dots_def)
next
  case (Cons c fd)
  assume "fraction_text fp"
  with Cons have "list_all isdigit_ascii fd"
    by (simp add: fraction_text_def)
  then have "dots fd = 0"
    by (rule dots_digits)
  then show ?thesis
    using Cons by (simp add: dots_def)
qed

lemma dots_exponent: "exponent_text ex \<Longrightarrow> dots ex = 0"
proof (cases ex)
  case Nil
  then show ?thesis by (simp add: dots_def)
next
  case (Cons c rest)
  assume "exponent_text ex"
  with Cons obtain sg ed where
    "c = CHR ''e'' \<or> c = CHR ''E''" "rest = sg @ ed" "sign_text sg" "list_all isdigit_ascii ed"
    by (auto simp: exponent_text_def)
  then show ?thesis
    using Cons dots_sign [of sg] dots_digits [of ed] by (auto simp: dots_def)
qed

lemma number_text_dots:
  assumes "number_text t"
  shows "dots t \<le> 1"
proof -
  from assms obtain l sg ip fp ex r where
    t: "t = l @ sg @ ip @ fp @ ex @ r" and
    parts: "list_all isspace_ascii l" "sign_text sg" "list_all isdigit_ascii ip"
      "fraction_text fp" "exponent_text ex" "list_all isspace_ascii r"
    unfolding number_text_def by blast
  show ?thesis
    using dots_spaces [OF parts(1)] dots_sign [OF parts(2)] dots_digits [OF parts(3)]
      dots_fraction [OF parts(4)] dots_exponent [OF parts(5)] dots_spaces [OF parts(6)]
    by (simp add: t)
qed

lemma unreadable_12abc: "\<not> readable_text ''12abc''"
proof -
  have "\<not> list_all number_char ''12abc''"
    by (simp add: number_char_def isspace_ascii_def isdigit_ascii_def)
  then have "\<not> number_text ''12abc''"
    using number_text_chars by blast
  moreover have "\<not> inf_word ''12abc''"
    by (simp add: inf_word_def to_lower_def)
  ultimately show ?thesis
    by (simp add: readable_text_def)
qed

lemma unreadable_1_2_3: "\<not> readable_text ''1.2.3''"
proof -
  have "dots ''1.2.3'' = 2"
    by (simp add: dots_def)
  then have "\<not> number_text ''1.2.3''"
    using number_text_dots [of "''1.2.3''"] by auto
  moreover have "\<not> inf_word ''1.2.3''"
    by (simp add: inf_word_def to_lower_def)
  ultimately show ?thesis
    by (simp add: readable_text_def)
qed


text \<open>
  Claim C2, as amended. The three numeric parsers (Plain Number, Scaled Currency,
  Percent) are total over their column: each returns one value per row and raises
  nothing. For every row whose text, after the deletions of the parser (every comma;
  every \<open>$\<close>, one final scale letter and every comma; every \<open>%\<close> and \<open>+\<close>), is not a
  number text, the parser gives the missing sentinel and not zero. The strings \<open>abc\<close>,
  the empty string and \<open>$--B\<close> give the missing sentinel in all three.
\<close>

theorem numeric_parsers_total:
  "length (transform_string_to_num sr) = length sr
   \<and> length (transform_dollars_str_to_num sr) = length sr
   \<and> length (transform_percent_str_to_num sr) = length sr
   \<and> (\<forall>i<length sr. \<not> readable_text (filter (\<lambda>c. c \<noteq> CHR '','') (sr ! i)) \<longrightarrow>
         transform_string_to_num sr ! i = NaN)
   \<and> (\<forall>i<length sr. \<not> readable_text (dollars_body (sr ! i)) \<longrightarrow>
         transform_dollars_str_to_num sr ! i = NaN)
   \<and> (\<forall>i<length sr.
         \<not> readable_text (filter (\<lambda>c. c \<noteq> CHR ''%'' \<and> c \<noteq> CHR ''+'') (sr ! i)) \<longrightarrow>
         transform_percent_str_to_num sr ! i = NaN)
   \<and> transform_string_to_num [''abc'', [], ''$--B''] = [NaN, NaN, NaN]
   \<and> transform_dollars_str_to_num [''abc'', [], ''$--B''] = [NaN, NaN, NaN]
   \<and> transform_percent_str_to_num [''abc'', [], ''$--B''] = [NaN, NaN, NaN]"
proof -
  have ex: "transform_string_to_num [''abc'', [], ''$--B''] = [NaN, NaN, NaN]"
    "transform_dollars_str_to_num [''abc'', [], ''$--B''] = [NaN, NaN, NaN]"
    "transform_percent_str_to_num [''abc'', [], ''$--B''] = [NaN, NaN, NaN]"
    by (simp_all add: transform_string_to_num_def transform_dollars_str_to_num_def
        transform_percent_str_to_num_def parser_eval)
  show ?thesis
    using ex plain_row_unreadable dollars_row_unreadable percent_row_unreadable
    by (simp add: transform_string_to_num_def transform_dollars_str_to_num_def
        transform_percent_str_to_num_def)
qed

theorem numeric_parsers_total_witness:
  "transform_string_to_num [''1,234.56'', ''12abc''] ! 1 = NaN
   \<and> transform_dollars_str_to_num [''$12abcK''] ! 0 = NaN
   \<and> transform_percent_str_to_num [''17%'', ''1.2.3%''] ! 1 = NaN"
proof -
  have a: "\<not> readable_text (filter (\<lambda>c. c \<noteq> CHR '','') ([''1,234.56'', ''12abc''] ! 1))"
    using unreadable_12abc by simp
  have b: "\<not> readable_text (dollars_body ([''$12abcK''] ! 0))"
    using unreadable_12abc by (simp add: dollars_body_def)
  have c: "\<not> readable_text
      (filter (\<lambda>c. c \<noteq> CHR ''%'' \<and> c \<noteq> CHR ''+'') ([''17%'', ''1.2.3%''] ! 1))"
    using unreadable_1_2_3 by simp
  have la: "1 < length [''1,234.56'', ''12abc'']" and lb: "0 < length [''$12abcK'']"
    and lc: "1 < length [''17%'', ''1.2.3%'']"
    by simp_all
  note t1 = numeric_parsers_total [of "[''1,234.56'', ''12abc'']", THEN conjunct2, THEN conjunct2,
      THEN conjunct2, THEN conjunct1, rule_format, OF la a]
  note t2 = numeric_parsers_total [of "[''$12abcK'']", THEN conjunct2, THEN conjunct2,
      THEN conjunct2, THEN conjunct2, THEN conjunct1, rule_format, OF lb b]
  note t3 = numeric_parsers_total [of "[''17%'', ''1.2.3%'']", THEN conjunct2, THEN conjunct2,
      THEN conjunct2, THEN conjunct2, THEN conjunct2, THEN conjunct1, rule_format, OF lc c]
  from t1 t2 t3 show ?thesis
    by (intro conjI)
qed

text \<open>
  Claim C2 as stated fails: \<open>4%2\<close> is no percent string, and the Percent Parser reads
  it as 42.
\<close>

theorem unparsable_is_missing_counterexample:
  "\<not> (\<forall>s. \<not> percent_pattern s \<longrightarrow> transform_percent_str_to_num_row s = NaN)"
proof
  assume "\<forall>s. \<not> percent_pattern s \<longrightarrow> transform_percent_str_to_num_row s = NaN"
  moreover have "\<not> percent_pattern ''4%2''"
    by (simp add: percent_pattern_def)
  ultimately have "transform_percent_str_to_num_row ''4%2'' = NaN"
    by blast
  moreover have "transform_percent_str_to_num_row ''4%2'' = Fin 42"
    by (simp add: parser_eval)
  ultimately show False
    by simp
qed

section \<open>The per-entity summary and the date range\<close>

lemma example_bitcoin:
  "filter (\<lambda>r. r ''name'' = Str ''Bitcoin'') (rows example_table) =
     [crypto_row ''Bitcoin'' ''BTC'' 0 (Fin 100) (Fin 900) (Fin 1) (Fin 2),
      crypto_row ''Bitcoin'' ''BTC'' 432000000000 (Fin 300) (Fin 950) (Fin 5) (Fin 6)]"
  by (simp add: example_table_def crypto_row_cells)

lemma example_columns:
  "''name'' \<in> set (columns example_table)" "''symbol'' \<in> set (columns example_table)"
  "''price_usd_num'' \<in> set (columns example_table)"
  "''chg_24h_num'' \<in> set (columns example_table)"
  "''chg_7d_num'' \<in> set (columns example_table)"
  by (simp_all add: example_table_def crypto_columns_def)

lemmas stats_eval =
  series_mean_def series_median_def series_min_def series_max_def present_def Let_def

lemma example_bitcoin_info:
  "compute_info example_table
     [crypto_row ''Bitcoin'' ''BTC'' 0 (Fin 100) (Fin 900) (Fin 1) (Fin 2),
      crypto_row ''Bitcoin'' ''BTC'' 432000000000 (Fin 300) (Fin 950) (Fin 5) (Fin 6)] =
   Inr \<lparr>info_name = Str ''Bitcoin'', info_symbol = Str ''BTC'',
        price_mean = Fin 200, price_median = Fin 200, price_min = Fin 100, price_max = Fin 300,
        chg24_mean = Fin 3, chg24_min = Fin 1, chg24_max = Fin 5,
        chg7_mean = Fin 4, chg7_min = Fin 2, chg7_max = Fin 6\<rparr>"
  by (simp add: compute_info_def example_columns float_column_def crypto_row_cells stats_eval)

lemma example_bitcoin_day0:
  "filter (\<lambda>r. r ''name'' = Str ''Bitcoin'') (select_date_range example_table 0 0) =
     [crypto_row ''Bitcoin'' ''BTC'' 0 (Fin 100) (Fin 900) (Fin 1) (Fin 2)]"
  by (simp add: select_date_range_def in_date_range_def example_table_def crypto_row_cells)

lemma example_bitcoin_day0_info:
  "compute_info example_table
     [crypto_row ''Bitcoin'' ''BTC'' 0 (Fin 100) (Fin 900) (Fin 1) (Fin 2)] =
   Inr \<lparr>info_name = Str ''Bitcoin'', info_symbol = Str ''BTC'',
        price_mean = Fin 100, price_median = Fin 100, price_min = Fin 100, price_max = Fin 100,
        chg24_mean = Fin 1, chg24_min = Fin 1, chg24_max = Fin 1,
        chg7_mean = Fin 2, chg7_min = Fin 2, chg7_max = Fin 2\<rparr>"
  by (simp add: compute_info_def example_columns float_column_def crypto_row_cells stats_eval)

text \<open>
  Claim C1, on the code. The button passes the chosen range in the places of the
  decimals, and the function selects by name alone: for the range of day 0 only, the
  statistics of Bitcoin are computed over both of its records, the one of day 5
  included, while the summary over the records in the range has the values of the
  single record of day 0.
\<close>

theorem summary_ignores_date_range:
  "get_info_button example_table ''Bitcoin'' 0 0 =
     Inr (Info \<lparr>info_name = Str ''Bitcoin'', info_symbol = Str ''BTC'',
        price_mean = Fin 200, price_median = Fin 200, price_min = Fin 100, price_max = Fin 300,
        chg24_mean = Fin 3, chg24_min = Fin 1, chg24_max = Fin 5,
        chg7_mean = Fin 4, chg7_min = Fin 2, chg7_max = Fin 6\<rparr> 0 0)
   \<and> summary_of_spec example_table ''Bitcoin'' 0 0 =
     Inr (Info \<lparr>info_name = Str ''Bitcoin'', info_symbol = Str ''BTC'',
        price_mean = Fin 100, price_median = Fin 100, price_min = Fin 100, price_max = Fin 100,
        chg24_mean = Fin 1, chg24_min = Fin 1, chg24_max = Fin 1,
        chg7_mean = Fin 2, chg7_min = Fin 2, chg7_max = Fin 2\<rparr> () ())"
  by (simp add: get_info_button_def get_crypto_main_info_def summary_of_spec_def
      example_columns example_bitcoin example_bitcoin_info example_bitcoin_day0
      example_bitcoin_day0_info)

lemma example_bitcoin_day1:
  "filter (\<lambda>r. r ''name'' = Str ''Bitcoin'') (select_date_range example_table 1 2) = []"
  by (simp add: select_date_range_def in_date_range_def example_table_def crypto_row_cells)

text \<open>
  Claim C6, on the code. No record of Bitcoin lies in the range of days 1 to 2, so the
  summary of the specification is the no-data outcome; the code shows the statistics
  over all records of Bitcoin. The no-data outcome is given only for a name without
  any record.
\<close>

theorem summary_no_data_in_range:
  "filter (\<lambda>r. r ''name'' = Str ''Bitcoin'') (select_date_range example_table 1 2) = []
   \<and> summary_of_spec example_table ''Bitcoin'' 1 2 = Inr (NoData ''Bitcoin'')
   \<and> get_info_button example_table ''Bitcoin'' 1 2 =
     Inr (Info \<lparr>info_name = Str ''Bitcoin'', info_symbol = Str ''BTC'',
        price_mean = Fin 200, price_median = Fin 200, price_min = Fin 100, price_max = Fin 300,
        chg24_mean = Fin 3, chg24_min = Fin 1, chg24_max = Fin 5,
        chg7_mean = Fin 4, chg7_min = Fin 2, chg7_max = Fin 6\<rparr> 1 2)
   \<and> get_info_button example_table ''Dogecoin'' 1 2 = Inr (NoData ''Dogecoin'')"
  by (simp add: get_info_button_def get_crypto_main_info_def summary_of_spec_def
      example_columns example_bitcoin example_bitcoin_info example_bitcoin_day1)
    (simp add: example_table_def crypto_row_cells)

text \<open>
  In general: a name without records gives the no-data outcome, and what the button
  shows does not depend on the two dates.
\<close>

lemma get_crypto_main_info_no_rows:
  "''name'' \<in> set (columns df) \<Longrightarrow> \<forall>r\<in>set (rows df). r ''name'' \<noteq> Str crypto \<Longrightarrow>
     get_crypto_main_info df crypto p c = Inr (NoData crypto)"
  by (simp add: get_crypto_main_info_def filter_empty_conv)

lemma get_info_button_range_free:
  "(case get_info_button df crypto s e of Inl x \<Rightarrow> Inl x | Inr (NoData c) \<Rightarrow> Inr (NoData c)
      | Inr (Info i a b) \<Rightarrow> Inr (Info i () ())) =
   (case get_info_button df crypto s' e' of Inl x \<Rightarrow> Inl x | Inr (NoData c) \<Rightarrow> Inr (NoData c)
      | Inr (Info i a b) \<Rightarrow> Inr (Info i () ()))"
  by (simp add: get_info_button_def get_crypto_main_info_def Let_def split: sum.splits)

end
